theory Spec2Isabelle
  imports Main "HOL-Library.AList" "HOL-Library.Word"
begin

unbundle bit_operations_syntax

section \<open>Data model\<close>

text \<open>
  Errors are values. The three sentinels of \<^verbatim>\<open>errors.go\<close> are constructors; every other
  Go \<^verbatim>\<open>error\<close> (a body read error, a Redis client error) is \<open>ErrOther\<close> with its message.
\<close>

datatype error = ErrRequestInProgress | ErrNotFound | ErrLockFailed | ErrOther string

text \<open>
  \<^verbatim>\<open>http.Header\<close> is a Go \<^verbatim>\<open>map[string][]string\<close>. It is an association list read as a
  map (the first binding of a name is the binding); header names stand for their canonical
  MIME form, on which \<^verbatim>\<open>Add\<close>, \<^verbatim>\<open>Set\<close>, \<^verbatim>\<open>Get\<close> and \<^verbatim>\<open>Del\<close> of net/http operate.
  Two headers are compared by the values they hold under each name (\<open>header_Values\<close>): a name
  without values and a missing name both send no header line.
  Byte slices are strings. Instants of the monotonic clock and durations are integers
  (nanoseconds).
\<close>

type_synonym header = "(string \<times> string list) list"

definition header_Values :: "header \<Rightarrow> string \<Rightarrow> string list" where
  "header_Values h k = (case map_of h k of None \<Rightarrow> [] | Some vs \<Rightarrow> vs)"

definition header_Get :: "header \<Rightarrow> string \<Rightarrow> string" where
  "header_Get h k = (case header_Values h k of [] \<Rightarrow> [] | v # _ \<Rightarrow> v)"

definition header_Add :: "header \<Rightarrow> string \<Rightarrow> string \<Rightarrow> header" where
  "header_Add h k v = AList.update k (header_Values h k @ [v]) h"

definition header_Set :: "header \<Rightarrow> string \<Rightarrow> string \<Rightarrow> header" where
  "header_Set h k v = AList.update k [v] h"

definition header_Del :: "header \<Rightarrow> string \<Rightarrow> header" where
  "header_Del h k = AList.delete k h"

text \<open>The keys a \<^verbatim>\<open>range\<close> loop over the map visits: each name once.\<close>

definition header_keys :: "header \<Rightarrow> string list" where
  "header_keys h = remdups (map fst h)"

record CachedResponse =
  StatusCode :: int
  Headers :: header
  Body :: string
  Timestamp :: int

section \<open>In-process store (store/memory.go)\<close>

text \<open>
  An \<^verbatim>\<open>entry\<close> holds the response pointer (\<open>None\<close> is Go's nil) and the expiry instant.
  A \<^verbatim>\<open>sync.Mutex\<close> is its lock bit and the number of goroutines parked in \<^verbatim>\<open>mu.Lock()\<close>.
  The store is its two maps; \<open>fatal\<close> records the runtime's fatal error
  \<^verbatim>\<open>sync: unlock of unlocked mutex\<close>.
\<close>

record entry =
  response :: "CachedResponse option"
  expiresAt :: int

record Mutex =
  locked :: bool
  parked :: nat

record MemoryStore =
  data :: "string \<rightharpoonup> entry"
  locks :: "string \<rightharpoonup> Mutex"
  fatal :: bool

definition NewMemoryStore :: MemoryStore where
  "NewMemoryStore = \<lparr>data = Map.empty, locks = Map.empty, fatal = False\<rparr>"

text \<open>\<^verbatim>\<open>Get\<close>: \<open>now\<close> is the value of \<^verbatim>\<open>time.Now()\<close>; \<^verbatim>\<open>After\<close> is strict.\<close>

definition MemoryStore_Get :: "MemoryStore \<Rightarrow> int \<Rightarrow> string \<Rightarrow> error + CachedResponse option" where
  "MemoryStore_Get s now key =
     (case data s key of
        None \<Rightarrow> Inl ErrNotFound
      | Some e \<Rightarrow> if now > expiresAt e then Inl ErrNotFound else Inr (response e))"

definition MemoryStore_Set ::
  "MemoryStore \<Rightarrow> int \<Rightarrow> string \<Rightarrow> CachedResponse option \<Rightarrow> int \<Rightarrow> error option \<times> MemoryStore" where
  "MemoryStore_Set s now key resp ttl =
     (None, s\<lparr>data := (data s)(key \<mapsto> \<lparr>response = resp, expiresAt = now + ttl\<rparr>)\<rparr>)"

text \<open>One tick of the \<^verbatim>\<open>cleanup\<close> loop: every entry past its expiry is deleted.\<close>

definition cleanup :: "MemoryStore \<Rightarrow> int \<Rightarrow> MemoryStore" where
  "cleanup s now =
     s\<lparr>data := (\<lambda>key. case data s key of
                        None \<Rightarrow> None
                      | Some e \<Rightarrow> if now > expiresAt e then None else Some e)\<rparr>"

subsection \<open>Per-key locks\<close>

text \<open>
  \<^verbatim>\<open>Lock\<close> looks the key's mutex up, creating it unlocked when it is missing, starts a
  goroutine that calls \<^verbatim>\<open>mu.Lock()\<close> and waits 100ms for it. The call is one atomic step
  placed at the instant its \<^verbatim>\<open>select\<close> fires: on a free mutex the goroutine acquires it and
  the caller gets the closure \<^verbatim>\<open>func() { mu.Unlock() }\<close>; on a held mutex the timer fires,
  the caller gets \<open>ErrRequestInProgress\<close>, and the goroutine stays parked in \<^verbatim>\<open>mu.Lock()\<close>.
  A call whose goroutine acquires the mutex within its 100ms because the holder released
  meanwhile is the holder's unlock step followed by this call's step.

  \<^verbatim>\<open>mu.Unlock()\<close> clears the lock bit; the runtime stops the program when the bit is
  already clear. A parked goroutine takes a free mutex in a step of its own,
  \<open>parked_acquires\<close>, so a new \<^verbatim>\<open>Lock\<close> call may come first, as in
  \<^verbatim>\<open>TestMemoryStore_Lock\<close>.
\<close>

definition mutex_of :: "MemoryStore \<Rightarrow> string \<Rightarrow> Mutex" where
  "mutex_of s key =
     (case locks s key of None \<Rightarrow> \<lparr>locked = False, parked = 0\<rparr> | Some mu \<Rightarrow> mu)"

definition MemoryStore_unlock :: "string \<Rightarrow> MemoryStore \<Rightarrow> MemoryStore" where
  "MemoryStore_unlock key s =
     (let mu = mutex_of s key in
      if locked mu then s\<lparr>locks := (locks s)(key \<mapsto> mu\<lparr>locked := False\<rparr>)\<rparr>
      else s\<lparr>fatal := True\<rparr>)"

definition MemoryStore_Lock ::
  "MemoryStore \<Rightarrow> string \<Rightarrow> (error + (MemoryStore \<Rightarrow> MemoryStore)) \<times> MemoryStore" where
  "MemoryStore_Lock s key =
     (let mu = mutex_of s key in
      if locked mu
      then (Inl ErrRequestInProgress,
            s\<lparr>locks := (locks s)(key \<mapsto> mu\<lparr>parked := parked mu + 1\<rparr>)\<rparr>)
      else (Inr (MemoryStore_unlock key),
            s\<lparr>locks := (locks s)(key \<mapsto> mu\<lparr>locked := True\<rparr>)\<rparr>))"

definition parked_acquires :: "MemoryStore \<Rightarrow> string \<Rightarrow> MemoryStore option" where
  "parked_acquires s key =
     (let mu = mutex_of s key in
      if \<not> locked mu \<and> parked mu > 0
      then Some (s\<lparr>locks := (locks s)(key \<mapsto> mu\<lparr>locked := True, parked := parked mu - 1\<rparr>)\<rparr>)
      else None)"

section \<open>Networked store (store/redis.go)\<close>

text \<open>
  The Redis service as the store's client sees it: each key holds a value and the instant
  after which it has expired; \<open>commands\<close> lists the commands the client has issued, in order;
  while \<open>unreachable\<close> a command gets an error reply and changes no key. The two commands
  \<^verbatim>\<open>Lock\<close> uses are modelled: \<^verbatim>\<open>SetNX\<close> with a positive expiration (set the key only if it
  does not exist, one atomic command of the service) and \<^verbatim>\<open>Del\<close>.
\<close>

datatype redis_cmd = SetNX string string int | Del string

record Redis =
  keys :: "string \<rightharpoonup> string \<times> int"
  commands :: "redis_cmd list"
  unreachable :: bool

definition redis_exists :: "Redis \<Rightarrow> int \<Rightarrow> string \<Rightarrow> bool" where
  "redis_exists r now k = (case keys r k of None \<Rightarrow> False | Some (v, expiry) \<Rightarrow> now \<le> expiry)"

definition redis_SetNX :: "Redis \<Rightarrow> int \<Rightarrow> string \<Rightarrow> string \<Rightarrow> int \<Rightarrow> (error + bool) \<times> Redis" where
  "redis_SetNX r now k v expiration =
     (let r' = r\<lparr>commands := commands r @ [SetNX k v expiration]\<rparr> in
      if unreachable r then (Inl (ErrOther ''redis: connection failed''), r')
      else if redis_exists r now k then (Inr False, r')
      else (Inr True, r'\<lparr>keys := (keys r)(k \<mapsto> (v, now + expiration))\<rparr>))"

definition redis_Del :: "Redis \<Rightarrow> string \<Rightarrow> Redis" where
  "redis_Del r k =
     (let r' = r\<lparr>commands := commands r @ [Del k]\<rparr> in
      if unreachable r then r' else r'\<lparr>keys := (keys r)(k := None)\<rparr>)"

text \<open>\<^verbatim>\<open>30*time.Second\<close> in nanoseconds.\<close>

definition lockTTL :: int where
  "lockTTL = 30 * 1000000000"

definition RedisStore_unlock :: "string \<Rightarrow> Redis \<Rightarrow> Redis" where
  "RedisStore_unlock lockKey r = redis_Del r lockKey"

definition RedisStore_Lock :: "Redis \<Rightarrow> int \<Rightarrow> string \<Rightarrow> (error + (Redis \<Rightarrow> Redis)) \<times> Redis" where
  "RedisStore_Lock r now key =
     (let lockKey = ''lock:'' @ key in
      case redis_SetNX r now lockKey ''1'' lockTTL of
        (Inl err, r') \<Rightarrow> (Inl err, r')
      | (Inr acquired, r') \<Rightarrow>
          if \<not> acquired then (Inl ErrRequestInProgress, r')
          else (Inr (RedisStore_unlock lockKey), r'))"

section \<open>SHA-256 (crypto/sha256)\<close>

text \<open>
  The digest \<^verbatim>\<open>defaultKeyFunc\<close> computes, after FIPS 180-4: bytes are 8-bit words, the
  working variables are 32-bit words, additions wrap, the message length in bits is a 64-bit
  word. \<open>K256\<close> holds the round constants, the first 32 bits of the fractional parts of the
  cube roots of the first 64 primes.
\<close>

definition K256 :: "32 word list" where
  "K256 =
    [1116352408, 1899447441, 3049323471, 3921009573, 961987163, 1508970993,
     2453635748, 2870763221, 3624381080, 310598401, 607225278, 1426881987,
     1925078388, 2162078206, 2614888103, 3248222580, 3835390401, 4022224774,
     264347078, 604807628, 770255983, 1249150122, 1555081692, 1996064986,
     2554220882, 2821834349, 2952996808, 3210313671, 3336571891, 3584528711,
     113926993, 338241895, 666307205, 773529912, 1294757372, 1396182291,
     1695183700, 1986661051, 2177026350, 2456956037, 2730485921, 2820302411,
     3259730800, 3345764771, 3516065817, 3600352804, 4094571909, 275423344,
     430227734, 506948616, 659060556, 883997877, 958139571, 1322822218,
     1537002063, 1747873779, 1955562222, 2024104815, 2227730452, 2361852424,
     2428436474, 2756734187, 3204031479, 3329325298]"

type_synonym sha256_state =
  "32 word \<times> 32 word \<times> 32 word \<times> 32 word \<times> 32 word \<times> 32 word \<times> 32 word \<times> 32 word"

definition sha256_init :: sha256_state where
  "sha256_init =
    (1779033703, 3144134277, 1013904242,
     2773480762, 1359893119, 2600822924,
     528734635, 1541459225)"

definition rotr32 :: "nat \<Rightarrow> 32 word \<Rightarrow> 32 word" where
  "rotr32 n x = or (drop_bit n x) (push_bit (32 - n) x)"

definition Ch :: "32 word \<Rightarrow> 32 word \<Rightarrow> 32 word \<Rightarrow> 32 word" where
  "Ch x y z = xor (and x y) (and (not x) z)"

definition Maj :: "32 word \<Rightarrow> 32 word \<Rightarrow> 32 word \<Rightarrow> 32 word" where
  "Maj x y z = xor (xor (and x y) (and x z)) (and y z)"

definition bsig0 :: "32 word \<Rightarrow> 32 word" where
  "bsig0 x = xor (xor (rotr32 2 x) (rotr32 13 x)) (rotr32 22 x)"

definition bsig1 :: "32 word \<Rightarrow> 32 word" where
  "bsig1 x = xor (xor (rotr32 6 x) (rotr32 11 x)) (rotr32 25 x)"

definition ssig0 :: "32 word \<Rightarrow> 32 word" where
  "ssig0 x = xor (xor (rotr32 7 x) (rotr32 18 x)) (drop_bit 3 x)"

definition ssig1 :: "32 word \<Rightarrow> 32 word" where
  "ssig1 x = xor (xor (rotr32 17 x) (rotr32 19 x)) (drop_bit 10 x)"

definition be64 :: "64 word \<Rightarrow> 8 word list" where
  "be64 n = map (\<lambda>i. ucast (drop_bit (8 * (7 - i)) n)) [0..<8]"

definition sha256_pad :: "8 word list \<Rightarrow> 8 word list" where
  "sha256_pad m =
     m @ [0x80] @ replicate ((119 - length m mod 64) mod 64) 0
       @ be64 (of_nat (8 * length m))"

definition sha256_blocks :: "8 word list \<Rightarrow> 8 word list list" where
  "sha256_blocks m = map (\<lambda>i. take 64 (drop (64 * i) m)) [0..<length m div 64]"

definition be32 :: "8 word list \<Rightarrow> 32 word" where
  "be32 bs = foldl (\<lambda>acc b. or (push_bit 8 acc) (ucast b)) 0 bs"

definition block_words :: "8 word list \<Rightarrow> 32 word list" where
  "block_words blk = map (\<lambda>j. be32 (take 4 (drop (4 * j) blk))) [0..<16]"

fun sha256_schedule :: "nat \<Rightarrow> 32 word list \<Rightarrow> 32 word list" where
  "sha256_schedule 0 w = w"
| "sha256_schedule (Suc n) w =
     (let t = length w in
      sha256_schedule n
        (w @ [ssig1 (w ! (t - 2)) + w ! (t - 7) + ssig0 (w ! (t - 15)) + w ! (t - 16)]))"

definition sha256_round :: "sha256_state \<Rightarrow> 32 word \<times> 32 word \<Rightarrow> sha256_state" where
  "sha256_round st kw =
     (case st of (a, b, c, d, e, f, g, h) \<Rightarrow>
      (let t1 = h + bsig1 e + Ch e f g + fst kw + snd kw;
           t2 = bsig0 a + Maj a b c
       in (t1 + t2, a, b, c, d + t1, e, f, g)))"

definition sha256_add :: "sha256_state \<Rightarrow> sha256_state \<Rightarrow> sha256_state" where
  "sha256_add x y =
     (case x of (a, b, c, d, e, f, g, h) \<Rightarrow>
      case y of (a', b', c', d', e', f', g', h') \<Rightarrow>
        (a + a', b + b', c + c', d + d', e + e', f + f', g + g', h + h'))"

definition sha256_compress :: "sha256_state \<Rightarrow> 8 word list \<Rightarrow> sha256_state" where
  "sha256_compress hs blk =
     sha256_add hs
       (foldl sha256_round hs (zip K256 (sha256_schedule 48 (block_words blk))))"

definition sha256 :: "8 word list \<Rightarrow> sha256_state" where
  "sha256 m = foldl sha256_compress sha256_init (sha256_blocks (sha256_pad m))"

text \<open>\<^verbatim>\<open>fmt.Sprintf("%x", h.Sum(nil))\<close>: the 32 digest bytes in lower-case hexadecimal.\<close>

definition hex_digit :: "nat \<Rightarrow> char" where
  "hex_digit n = ''0123456789abcdef'' ! (n mod 16)"

definition hex32 :: "32 word \<Rightarrow> string" where
  "hex32 w = map (\<lambda>i. hex_digit (unat (and (drop_bit (4 * (7 - i)) w) 0xF))) [0..<8]"

definition sha256_hex_state :: "sha256_state \<Rightarrow> string" where
  "sha256_hex_state st =
     (case st of (a, b, c, d, e, f, g, h) \<Rightarrow>
        hex32 a @ hex32 b @ hex32 c @ hex32 d @ hex32 e @ hex32 f @ hex32 g @ hex32 h)"

definition sha256_hex :: "string \<Rightarrow> string" where
  "sha256_hex bytes = sha256_hex_state (sha256 (map of_char bytes))"

section \<open>Requests, response writers and handlers (net/http)\<close>

text \<open>
  A request is its method, \<^verbatim>\<open>r.URL.Path\<close>, its header and its body stream: the bytes the
  stream yields and the error that ends it (\<open>None\<close> for a clean end of file).
\<close>

record Request =
  Method :: string
  Path :: string
  ReqHeader :: header
  ReqBody :: "string \<times> error option"

definition io_ReadAll :: "string \<times> error option \<Rightarrow> error + string" where
  "io_ReadAll b = (case snd b of None \<Rightarrow> Inr (fst b) | Some err \<Rightarrow> Inl err)"

text \<open>
  A \<^verbatim>\<open>http.ResponseWriter\<close>, with the contract net/http documents and
  \<^verbatim>\<open>httptest.ResponseRecorder\<close> implements: \<^verbatim>\<open>Header()\<close> is a live map; the first
  \<^verbatim>\<open>WriteHeader\<close> fixes the status code and the headers that are sent, later calls are
  ignored; a \<^verbatim>\<open>Write\<close> before any \<^verbatim>\<open>WriteHeader\<close> sends status 200 first; a response
  that was never written has status 200 and the headers of the map.
\<close>

record ResponseWriter =
  rw_header :: header
  wroteHeader :: bool
  code :: int
  sentHeader :: header
  written :: string

definition NewRecorder :: ResponseWriter where
  "NewRecorder = \<lparr>rw_header = [], wroteHeader = False, code = 200, sentHeader = [], written = []\<rparr>"

definition rw_WriteHeader :: "ResponseWriter \<Rightarrow> int \<Rightarrow> ResponseWriter" where
  "rw_WriteHeader w c =
     (if wroteHeader w then w else w\<lparr>wroteHeader := True, code := c, sentHeader := rw_header w\<rparr>)"

definition rw_Write :: "ResponseWriter \<Rightarrow> string \<Rightarrow> ResponseWriter" where
  "rw_Write w b =
     (let w' = (if wroteHeader w then w else rw_WriteHeader w 200)
      in w'\<lparr>written := written w' @ b\<rparr>)"

text \<open>What the client receives.\<close>

definition resp_status :: "ResponseWriter \<Rightarrow> int" where
  "resp_status w = (if wroteHeader w then code w else 200)"

definition resp_header :: "ResponseWriter \<Rightarrow> header" where
  "resp_header w = (if wroteHeader w then sentHeader w else rw_header w)"

definition resp_body :: "ResponseWriter \<Rightarrow> string" where
  "resp_body w = written w"

text \<open>\<^verbatim>\<open>http.Error\<close>.\<close>

definition http_Error :: "ResponseWriter \<Rightarrow> string \<Rightarrow> int \<Rightarrow> ResponseWriter" where
  "http_Error w msg c =
     (let h1 = header_Del (rw_header w) ''Content-Length'';
          h2 = header_Set h1 ''Content-Type'' ''text/plain; charset=utf-8'';
          h3 = header_Set h2 ''X-Content-Type-Options'' ''nosniff''
      in rw_Write (rw_WriteHeader (w\<lparr>rw_header := h3\<rparr>) c) (msg @ [CHR 0x0A]))"

definition StatusBadRequest :: int where "StatusBadRequest = 400"
definition StatusConflict :: int where "StatusConflict = 409"
definition StatusInternalServerError :: int where "StatusInternalServerError = 500"
definition StatusOK :: int where "StatusOK = 200"

text \<open>
  The wrapped handler is opaque: from its own state and the request it produces the calls it
  makes on the response writer it is given, in order, and its next state. A handler of this
  type returns; handlers that panic are described with the middleware, below.
\<close>

datatype action =
    HeaderAdd string string
  | HeaderSet string string
  | HeaderDel string
  | WriteHeader int
  | Write string

type_synonym 'h Handler = "'h \<Rightarrow> Request \<Rightarrow> action list \<times> 'h"

fun rw_do :: "ResponseWriter \<Rightarrow> action \<Rightarrow> ResponseWriter" where
  "rw_do w (HeaderAdd k v) = w\<lparr>rw_header := header_Add (rw_header w) k v\<rparr>"
| "rw_do w (HeaderSet k v) = w\<lparr>rw_header := header_Set (rw_header w) k v\<rparr>"
| "rw_do w (HeaderDel k) = w\<lparr>rw_header := header_Del (rw_header w) k\<rparr>"
| "rw_do w (WriteHeader c) = rw_WriteHeader w c"
| "rw_do w (Write b) = rw_Write w b"

definition ServeHTTP :: "'h Handler \<Rightarrow> ResponseWriter \<Rightarrow> Request \<Rightarrow> 'h \<Rightarrow> ResponseWriter \<times> 'h" where
  "ServeHTTP next w r hs = (case next hs r of (acts, hs') \<Rightarrow> (foldl rw_do w acts, hs'))"

section \<open>The middleware\<close>

subsection \<open>Store interface (store.go)\<close>

text \<open>
  A store over states \<open>'s\<close>. Every method takes the state and the reading of the clock at the
  call and returns the state after it. \<^verbatim>\<open>Get\<close> returns an error or the response pointer,
  \<^verbatim>\<open>Lock\<close> an error or the unlock closure.
\<close>

record 's Store =
  store_Get :: "'s \<Rightarrow> int \<Rightarrow> string \<Rightarrow> (error + CachedResponse option) \<times> 's"
  store_Set :: "'s \<Rightarrow> int \<Rightarrow> string \<Rightarrow> CachedResponse option \<Rightarrow> int \<Rightarrow> error option \<times> 's"
  store_Lock :: "'s \<Rightarrow> int \<Rightarrow> string \<Rightarrow> (error + ('s \<Rightarrow> 's)) \<times> 's"

definition MemoryStore_impl :: "MemoryStore Store" where
  "MemoryStore_impl =
     \<lparr>store_Get = (\<lambda>s now key. (MemoryStore_Get s now key, s)),
      store_Set = MemoryStore_Set,
      store_Lock = (\<lambda>s now key. MemoryStore_Lock s key)\<rparr>"

subsection \<open>Configuration\<close>

text \<open>A \<^verbatim>\<open>KeyFunc\<close> may consume and replace the request body, so it returns the request too.\<close>

record Config =
  HeaderName :: string
  TTL :: int
  KeyFunc :: "Request \<Rightarrow> string \<Rightarrow> (error + string) \<times> Request"

definition WithHeaderName :: "string \<Rightarrow> Config \<Rightarrow> Config" where
  "WithHeaderName name c = c\<lparr>HeaderName := name\<rparr>"

definition WithTTL :: "int \<Rightarrow> Config \<Rightarrow> Config" where
  "WithTTL ttl c = c\<lparr>TTL := ttl\<rparr>"

definition WithKeyFunc :: "(Request \<Rightarrow> string \<Rightarrow> (error + string) \<times> Request) \<Rightarrow> Config \<Rightarrow> Config" where
  "WithKeyFunc fn c = c\<lparr>KeyFunc := fn\<rparr>"

definition DefaultHeaderName :: string where
  "DefaultHeaderName = ''Idempotency-Key''"

definition DefaultTTL :: int where
  "DefaultTTL = 24 * 3600 * 1000000000"

subsection \<open>Fingerprint\<close>

definition isIdempotentMethod :: "string \<Rightarrow> bool" where
  "isIdempotentMethod method = (method = ''POST'' \<or> method = ''PATCH'' \<or> method = ''PUT'')"

definition defaultKeyFunc :: "Request \<Rightarrow> string \<Rightarrow> (error + string) \<times> Request" where
  "defaultKeyFunc r idempotencyKey =
     (case io_ReadAll (ReqBody r) of
        Inl err \<Rightarrow> (Inl err, r\<lparr>ReqBody := ([], Some err)\<rparr>)
      | Inr body \<Rightarrow>
          (let fingerprint = sha256_hex (Method r @ Path r @ body)
           in (Inr (idempotencyKey @ '':'' @ fingerprint), r\<lparr>ReqBody := (body, None)\<rparr>)))"

definition defaultConfig :: Config where
  "defaultConfig = \<lparr>HeaderName = DefaultHeaderName, TTL = DefaultTTL, KeyFunc = defaultKeyFunc\<rparr>"

definition applyOptions :: "(Config \<Rightarrow> Config) list \<Rightarrow> Config" where
  "applyOptions opts = foldl (\<lambda>config opt. opt config) defaultConfig opts"

subsection \<open>Replay and capture\<close>

definition writeCachedResponse :: "ResponseWriter \<Rightarrow> CachedResponse \<Rightarrow> ResponseWriter" where
  "writeCachedResponse w cached =
     (let h1 = foldl (\<lambda>h key. foldl (\<lambda>h value. header_Add h key value) h
                                   (header_Values (Headers cached) key))
                     (rw_header w) (header_keys (Headers cached));
          h2 = header_Set h1 ''X-Idempotency-Cached'' ''true'';
          w1 = rw_WriteHeader (w\<lparr>rw_header := h2\<rparr>) (StatusCode cached)
      in rw_Write w1 (Body cached))"

text \<open>
  \<^verbatim>\<open>responseRecorder\<close> embeds the response writer: \<^verbatim>\<open>Header()\<close> is the embedded writer's,
  \<^verbatim>\<open>WriteHeader\<close> and \<^verbatim>\<open>Write\<close> record and forward.
\<close>

record responseRecorder =
  embedded :: ResponseWriter
  statusCode :: int
  body :: string

definition rec_WriteHeader :: "responseRecorder \<Rightarrow> int \<Rightarrow> responseRecorder" where
  "rec_WriteHeader rc c = rc\<lparr>statusCode := c, embedded := rw_WriteHeader (embedded rc) c\<rparr>"

definition rec_Write :: "responseRecorder \<Rightarrow> string \<Rightarrow> responseRecorder" where
  "rec_Write rc b = rc\<lparr>body := body rc @ b, embedded := rw_Write (embedded rc) b\<rparr>"

fun rec_do :: "responseRecorder \<Rightarrow> action \<Rightarrow> responseRecorder" where
  "rec_do rc (WriteHeader c) = rec_WriteHeader rc c"
| "rec_do rc (Write b) = rec_Write rc b"
| "rec_do rc a = rc\<lparr>embedded := rw_do (embedded rc) a\<rparr>"

definition ServeHTTP_recorder ::
  "'h Handler \<Rightarrow> responseRecorder \<Rightarrow> Request \<Rightarrow> 'h \<Rightarrow> responseRecorder \<times> 'h" where
  "ServeHTTP_recorder next rc r hs = (case next hs r of (acts, hs') \<Rightarrow> (foldl rec_do rc acts, hs'))"

subsection \<open>The handler function\<close>

text \<open>
  One request through \<^verbatim>\<open>Middleware(store, opts...)(next)\<close>, with \<open>config\<close> the configuration
  after the options. \<open>clk\<close> holds the clock readings at \<^verbatim>\<open>store.Lock\<close>, at \<^verbatim>\<open>store.Get\<close>, at
  \<^verbatim>\<open>time.Now()\<close> for the timestamp and at \<^verbatim>\<open>store.Set\<close>. The result is the response writer,
  the store and the handler's state when the function returns, and the calls it made on the
  key function, the store, the closure and the wrapped handler, in order.
\<close>

record Clock =
  tLock :: int
  tGet :: int
  tNow :: int
  tSet :: int

datatype event =
    CallKeyFunc
  | CallLock string
  | CallGet string
  | CallNext
  | CallSet string CachedResponse int
  | CallUnlock

record ('s, 'h) Result =
  res_w :: ResponseWriter
  res_store :: 's
  res_handler :: 'h
  res_calls :: "event list"

definition Middleware ::
  "'s Store \<Rightarrow> Config \<Rightarrow> 'h Handler \<Rightarrow> Clock \<Rightarrow> ResponseWriter \<Rightarrow> Request \<Rightarrow> 's \<Rightarrow> 'h
     \<Rightarrow> ('s, 'h) Result" where
  "Middleware store config next clk w r st hs =
     (if \<not> isIdempotentMethod (Method r) then
        (case ServeHTTP next w r hs of (w', hs') \<Rightarrow>
           \<lparr>res_w = w', res_store = st, res_handler = hs', res_calls = [CallNext]\<rparr>)
      else
        (let key = header_Get (ReqHeader r) (HeaderName config) in
         if key = [] then
           (case ServeHTTP next w r hs of (w', hs') \<Rightarrow>
              \<lparr>res_w = w', res_store = st, res_handler = hs', res_calls = [CallNext]\<rparr>)
         else
           (case KeyFunc config r key of
              (Inl err, r') \<Rightarrow>
                \<lparr>res_w = http_Error w ''Invalid idempotency key'' StatusBadRequest,
                 res_store = st, res_handler = hs, res_calls = [CallKeyFunc]\<rparr>
            | (Inr fullKey, r') \<Rightarrow>
                (case store_Lock store st (tLock clk) fullKey of
                   (Inl err, st1) \<Rightarrow>
                     if err = ErrRequestInProgress then
                       \<lparr>res_w = http_Error w ''Request already in progress'' StatusConflict,
                        res_store = st1, res_handler = hs,
                        res_calls = [CallKeyFunc, CallLock fullKey]\<rparr>
                     else
                       \<lparr>res_w = http_Error w ''Internal server error'' StatusInternalServerError,
                        res_store = st1, res_handler = hs,
                        res_calls = [CallKeyFunc, CallLock fullKey]\<rparr>
                 | (Inr unlock, st1) \<Rightarrow>
                     (case store_Get store st1 (tGet clk) fullKey of
                        (Inr (Some cached), st2) \<Rightarrow>
                          \<lparr>res_w = writeCachedResponse w cached,
                           res_store = unlock st2, res_handler = hs,
                           res_calls = [CallKeyFunc, CallLock fullKey, CallGet fullKey, CallUnlock]\<rparr>
                      | (_, st2) \<Rightarrow>
                          (let recorder = \<lparr>embedded = w, statusCode = StatusOK, body = []\<rparr> in
                           case ServeHTTP_recorder next recorder r' hs of (recorder', hs') \<Rightarrow>
                             (let cached = \<lparr>StatusCode = statusCode recorder',
                                            Headers = rw_header (embedded recorder'),
                                            Body = body recorder',
                                            Timestamp = tNow clk\<rparr> in
                              case store_Set store st2 (tSet clk) fullKey (Some cached) (TTL config) of
                                (err, st3) \<Rightarrow>
                                  \<lparr>res_w = embedded recorder',
                                   res_store = unlock st3, res_handler = hs',
                                   res_calls = [CallKeyFunc, CallLock fullKey, CallGet fullKey, CallNext,
                                                CallSet fullKey cached (TTL config), CallUnlock]\<rparr>)))))))"

subsection \<open>A handler that panics\<close>

text \<open>
  A call of \<^verbatim>\<open>next.ServeHTTP\<close> may end in a panic instead of a return
  (\<^verbatim>\<open>panic(http.ErrAbortHandler)\<close> is the documented way to abort a handler); the server
  recovers it above the middleware. Such a handler yields, with the calls it made before and
  its state, the panic value, \<open>None\<close> when it returns. The middleware has no \<^verbatim>\<open>defer\<close> and
  no \<^verbatim>\<open>recover\<close>, so the panic unwinds through it: no statement after the call runs.
  \<open>Middleware_unwind\<close> is the handler function of \<open>Middleware\<close> with that exit; its second
  component is the panic that leaves it.
\<close>

type_synonym 'h PanicHandler = "'h \<Rightarrow> Request \<Rightarrow> action list \<times> 'h \<times> string option"

definition ServeHTTP_unwind ::
  "'h PanicHandler \<Rightarrow> ResponseWriter \<Rightarrow> Request \<Rightarrow> 'h \<Rightarrow> ResponseWriter \<times> 'h \<times> string option" where
  "ServeHTTP_unwind next w r hs =
     (case next hs r of (acts, hs', p) \<Rightarrow> (foldl rw_do w acts, hs', p))"

definition ServeHTTP_recorder_unwind ::
  "'h PanicHandler \<Rightarrow> responseRecorder \<Rightarrow> Request \<Rightarrow> 'h
     \<Rightarrow> responseRecorder \<times> 'h \<times> string option" where
  "ServeHTTP_recorder_unwind next rc r hs =
     (case next hs r of (acts, hs', p) \<Rightarrow> (foldl rec_do rc acts, hs', p))"

definition returning :: "'h Handler \<Rightarrow> 'h PanicHandler" where
  "returning next hs r = (case next hs r of (acts, hs') \<Rightarrow> (acts, hs', None))"

definition Middleware_unwind ::
  "'s Store \<Rightarrow> Config \<Rightarrow> 'h PanicHandler \<Rightarrow> Clock \<Rightarrow> ResponseWriter \<Rightarrow> Request \<Rightarrow> 's \<Rightarrow> 'h
     \<Rightarrow> ('s, 'h) Result \<times> string option" where
  "Middleware_unwind store config next clk w r st hs =
     (if \<not> isIdempotentMethod (Method r) then
        (case ServeHTTP_unwind next w r hs of (w', hs', p) \<Rightarrow>
           (\<lparr>res_w = w', res_store = st, res_handler = hs', res_calls = [CallNext]\<rparr>, p))
      else
        (let key = header_Get (ReqHeader r) (HeaderName config) in
         if key = [] then
           (case ServeHTTP_unwind next w r hs of (w', hs', p) \<Rightarrow>
              (\<lparr>res_w = w', res_store = st, res_handler = hs', res_calls = [CallNext]\<rparr>, p))
         else
           (case KeyFunc config r key of
              (Inl err, r') \<Rightarrow>
                (\<lparr>res_w = http_Error w ''Invalid idempotency key'' StatusBadRequest,
                  res_store = st, res_handler = hs, res_calls = [CallKeyFunc]\<rparr>, None)
            | (Inr fullKey, r') \<Rightarrow>
                (case store_Lock store st (tLock clk) fullKey of
                   (Inl err, st1) \<Rightarrow>
                     if err = ErrRequestInProgress then
                       (\<lparr>res_w = http_Error w ''Request already in progress'' StatusConflict,
                         res_store = st1, res_handler = hs,
                         res_calls = [CallKeyFunc, CallLock fullKey]\<rparr>, None)
                     else
                       (\<lparr>res_w = http_Error w ''Internal server error'' StatusInternalServerError,
                         res_store = st1, res_handler = hs,
                         res_calls = [CallKeyFunc, CallLock fullKey]\<rparr>, None)
                 | (Inr unlock, st1) \<Rightarrow>
                     (case store_Get store st1 (tGet clk) fullKey of
                        (Inr (Some cached), st2) \<Rightarrow>
                          (\<lparr>res_w = writeCachedResponse w cached,
                            res_store = unlock st2, res_handler = hs,
                            res_calls = [CallKeyFunc, CallLock fullKey, CallGet fullKey, CallUnlock]\<rparr>,
                           None)
                      | (_, st2) \<Rightarrow>
                          (let recorder = \<lparr>embedded = w, statusCode = StatusOK, body = []\<rparr> in
                           case ServeHTTP_recorder_unwind next recorder r' hs of
                             (recorder', hs', Some p) \<Rightarrow>
                               (\<lparr>res_w = embedded recorder', res_store = st2, res_handler = hs',
                                 res_calls = [CallKeyFunc, CallLock fullKey, CallGet fullKey,
                                              CallNext]\<rparr>, Some p)
                           | (recorder', hs', None) \<Rightarrow>
                             (let cached = \<lparr>StatusCode = statusCode recorder',
                                            Headers = rw_header (embedded recorder'),
                                            Body = body recorder',
                                            Timestamp = tNow clk\<rparr> in
                              case store_Set store st2 (tSet clk) fullKey (Some cached) (TTL config) of
                                (err, st3) \<Rightarrow>
                                  (\<lparr>res_w = embedded recorder',
                                    res_store = unlock st3, res_handler = hs',
                                    res_calls = [CallKeyFunc, CallLock fullKey, CallGet fullKey, CallNext,
                                                 CallSet fullKey cached (TTL config), CallUnlock]\<rparr>,
                                   None))))))))"

text \<open>The action is a call of \<^verbatim>\<open>Add\<close>, \<^verbatim>\<open>Set\<close> or \<^verbatim>\<open>Del\<close> on the header \<open>k\<close>.\<close>

definition names_header :: "string \<Rightarrow> action \<Rightarrow> bool" where
  "names_header k a =
     (case a of
        HeaderAdd k' v \<Rightarrow> k' = k
      | HeaderSet k' v \<Rightarrow> k' = k
      | HeaderDel k' \<Rightarrow> k' = k
      | _ \<Rightarrow> False)"

text \<open>
  The response the middleware builds after the handler returned (the recorder starts with
  \<^verbatim>\<open>http.StatusOK\<close> and an empty buffer), and what the recorder holds in terms of the
  handler's calls: the code of the last \<^verbatim>\<open>WriteHeader\<close>, and all bytes written.
\<close>

definition captured :: "'h Handler \<Rightarrow> ResponseWriter \<Rightarrow> Request \<Rightarrow> 'h \<Rightarrow> int \<Rightarrow> CachedResponse" where
  "captured next w r hs now =
     (case ServeHTTP_recorder next \<lparr>embedded = w, statusCode = StatusOK, body = []\<rparr> r hs of
        (recorder, hs') \<Rightarrow>
          \<lparr>StatusCode = statusCode recorder,
           Headers = rw_header (embedded recorder),
           Body = body recorder,
           Timestamp = now\<rparr>)"

definition last_status :: "int \<Rightarrow> action list \<Rightarrow> int" where
  "last_status c acts = foldl (\<lambda>c a. case a of WriteHeader c' \<Rightarrow> c' | _ \<Rightarrow> c) c acts"

definition bytes_written :: "action list \<Rightarrow> string" where
  "bytes_written acts = concat (map (\<lambda>a. case a of Write b \<Rightarrow> b | _ \<Rightarrow> []) acts)"

text \<open>
  A handler run is orderly when it first sets its headers, then calls \<^verbatim>\<open>WriteHeader\<close> at
  most once, then only writes the body. The recorder is \<open>untouched\<close> while nothing was
  written through it and \<open>in_step\<close> when what it recorded is what its writer sent.
\<close>

fun is_header_op :: "action \<Rightarrow> bool" where
  "is_header_op (HeaderAdd k v) = True"
| "is_header_op (HeaderSet k v) = True"
| "is_header_op (HeaderDel k) = True"
| "is_header_op a = False"

fun is_Write :: "action \<Rightarrow> bool" where
  "is_Write (Write b) = True"
| "is_Write a = False"

fun after_status :: "action list \<Rightarrow> action list" where
  "after_status (WriteHeader c # acts) = acts"
| "after_status acts = acts"

definition orderly :: "action list \<Rightarrow> bool" where
  "orderly acts = list_all is_Write (after_status (dropWhile is_header_op acts))"

definition untouched :: "responseRecorder \<Rightarrow> bool" where
  "untouched rc =
     (\<not> wroteHeader (embedded rc) \<and> statusCode rc = 200 \<and> body rc = []
      \<and> written (embedded rc) = [])"

definition in_step :: "responseRecorder \<Rightarrow> bool" where
  "in_step rc =
     (wroteHeader (embedded rc) \<and> statusCode rc = code (embedded rc)
      \<and> sentHeader (embedded rc) = rw_header (embedded rc)
      \<and> body rc = written (embedded rc))"

section \<open>Fixtures of the test suite\<close>

text \<open>
  The handler of \<^verbatim>\<open>TestMiddleware_DifferentBodyGivesDifferentKey\<close> (its state is
  \<^verbatim>\<open>callCount\<close>), the requests of the tests, and clock readings for one request that
  reaches the store at \<open>t\<close>.
\<close>

definition test_handler :: "nat Handler" where
  "test_handler callCount r =
     ([WriteHeader 200, Write (''{'' @ [CHR 0x22] @ ''success'' @ [CHR 0x22] @ '':true}'')],
      callCount + 1)"

definition test_request :: "string \<Rightarrow> string \<Rightarrow> string \<Rightarrow> Request" where
  "test_request method path payload =
     \<lparr>Method = method, Path = path,
      ReqHeader = [(''Idempotency-Key'', [''test-123''])],
      ReqBody = (payload, None)\<rparr>"

definition keyless_request :: Request where
  "keyless_request =
     \<lparr>Method = ''POST'', Path = ''/api/payment'', ReqHeader = [], ReqBody = ([], None)\<rparr>"

definition test_clock :: "int \<Rightarrow> Clock" where
  "test_clock t = \<lparr>tLock = t, tGet = t + 1, tNow = t + 2, tSet = t + 3\<rparr>"

definition amount_100 :: string where
  "amount_100 = ''{'' @ [CHR 0x22] @ ''amount'' @ [CHR 0x22] @ '':100}''"

definition amount_200 :: string where
  "amount_200 = ''{'' @ [CHR 0x22] @ ''amount'' @ [CHR 0x22] @ '':200}''"

definition test_fullKey :: "string \<Rightarrow> string" where
  "test_fullKey payload = ''test-123:'' @ sha256_hex (''POST'' @ ''/api/payment'' @ payload)"

definition test_response :: CachedResponse where
  "test_response =
     \<lparr>StatusCode = 200,
      Headers = [(''Content-Type'', [''application/json''])],
      Body = ''{'' @ [CHR 0x22] @ ''success'' @ [CHR 0x22] @ '':true}'',
      Timestamp = 0\<rparr>"

text \<open>A request whose body stream breaks off, and a store whose backend cannot be reached.\<close>

definition truncated_request :: Request where
  "truncated_request =
     \<lparr>Method = ''POST'', Path = ''/api/payment'',
      ReqHeader = [(''Idempotency-Key'', [''test-123''])],
      ReqBody = (''{'', Some (ErrOther ''unexpected EOF''))\<rparr>"

definition unreachable_store :: "unit Store" where
  "unreachable_store =
     \<lparr>store_Get = (\<lambda>s now key. (Inl (ErrOther ''dial tcp: connection refused''), s)),
      store_Set = (\<lambda>s now key resp ttl. (Some (ErrOther ''dial tcp: connection refused''), s)),
      store_Lock = (\<lambda>s now key. (Inl (ErrOther ''dial tcp: connection refused''), s))\<rparr>"

text \<open>A store whose backend grants the lock and then times out on every read and write.\<close>

definition timing_out_store :: "unit Store" where
  "timing_out_store =
     \<lparr>store_Get = (\<lambda>s now key. (Inl (ErrOther ''i/o timeout''), s)),
      store_Set = (\<lambda>s now key resp ttl. (Some (ErrOther ''i/o timeout''), s)),
      store_Lock = (\<lambda>s now key. (Inr (\<lambda>s. s), s))\<rparr>"

text \<open>The handler of \<^verbatim>\<open>TestMiddleware_WithCustomTTL\<close>, which only writes the status.\<close>

definition status_handler :: "unit Handler" where
  "status_handler u r = ([WriteHeader 200], u)"

text \<open>A handler that counts the call and aborts with \<^verbatim>\<open>panic(http.ErrAbortHandler)\<close>.\<close>

definition aborting_handler :: "nat PanicHandler" where
  "aborting_handler callCount r = ([], callCount + 1, Some ''net/http: abort Handler'')"

section \<open>Histories of the in-process store\<close>

text \<open>
  A history is a list of atomic steps on one \<^verbatim>\<open>MemoryStore\<close>: the calls of its methods by
  any caller, the calls of the closures \<^verbatim>\<open>Lock\<close> returned, and the steps in which a parked
  goroutine acquires a mutex. A configuration pairs the store with the keys whose closure
  a caller holds and has not called yet; a closure is called at most once and only by a
  caller that holds it, so \<open>OpUnlock k\<close> is not a step when \<open>k\<close> is not among them.
\<close>

datatype op =
    OpLock string
  | OpUnlock string
  | OpWake string
  | OpGet int string
  | OpSet int string "CachedResponse option" int
  | OpCleanup int

datatype outcome = Acquired | Refused error | Done | Got "error + CachedResponse option"

type_synonym config = "MemoryStore \<times> string set"

fun step :: "config \<Rightarrow> op \<Rightarrow> (outcome \<times> config) option" where
  "step (s, caps) (OpLock k) =
     (case MemoryStore_Lock s k of
        (Inl e, s') \<Rightarrow> Some (Refused e, (s', caps))
      | (Inr unlock, s') \<Rightarrow> Some (Acquired, (s', insert k caps)))"
| "step (s, caps) (OpUnlock k) =
     (if k \<in> caps then Some (Done, (MemoryStore_unlock k s, caps - {k})) else None)"
| "step (s, caps) (OpWake k) =
     (case parked_acquires s k of None \<Rightarrow> None | Some s' \<Rightarrow> Some (Done, (s', caps)))"
| "step (s, caps) (OpGet now k) = Some (Got (MemoryStore_Get s now k), (s, caps))"
| "step (s, caps) (OpSet now k resp ttl) =
     Some (Done, (snd (MemoryStore_Set s now k resp ttl), caps))"
| "step (s, caps) (OpCleanup now) = Some (Done, (cleanup s now, caps))"

fun run :: "config \<Rightarrow> op list \<Rightarrow> (outcome list \<times> config) option" where
  "run c [] = Some ([], c)"
| "run c (x # xs) =
     (case step c x of
        None \<Rightarrow> None
      | Some (out, c') \<Rightarrow>
          (case run c' xs of None \<Rightarrow> None | Some (outs, c'') \<Rightarrow> Some (out # outs, c'')))"

text \<open>The mutex of \<open>key\<close> is held and no caller holds a closure that releases it.\<close>

definition wedged :: "config \<Rightarrow> string \<Rightarrow> bool" where
  "wedged c key = (locked (mutex_of (fst c) key) \<and> key \<notin> snd c)"

text \<open>
  A goroutine is parked on the mutex of \<open>key\<close> or the key is wedged, and a caller holds a
  closure for \<open>key\<close> only while the mutex is held.
\<close>

definition stranded :: "config \<Rightarrow> string \<Rightarrow> bool" where
  "stranded c key =
     ((key \<in> snd c \<longrightarrow> locked (mutex_of (fst c) key))
      \<and> (0 < parked (mutex_of (fst c) key) \<or> wedged c key))"

section \<open>Properties of the in-process store\<close>

text \<open>
  C7. For every key, \<^verbatim>\<open>MemoryStore.Get\<close> returns \<open>ErrNotFound\<close> when the key has no entry and
  when the entry's expiry instant has passed, and it does so whether or not a cleanup sweep
  (at any instant \<open>t\<close>) has run before the lookup.
\<close>

theorem MemoryStore_Get_absent_or_expired:
  assumes "case data s key of None \<Rightarrow> True | Some e \<Rightarrow> now > expiresAt e"
  shows "MemoryStore_Get s now key = Inl ErrNotFound
       \<and> MemoryStore_Get (cleanup s t) now key = Inl ErrNotFound"
  using assms by (auto simp: MemoryStore_Get_def cleanup_def split: option.splits)

theorem MemoryStore_Get_absent_or_expired_witness:
  "MemoryStore_Get
     (snd (MemoryStore_Set NewMemoryStore 1000 ''k''
        (Some \<lparr>StatusCode = 200, Headers = [], Body = ''ok'', Timestamp = 1000\<rparr>) 50))
     1051 ''k'' = Inl ErrNotFound
   \<and> MemoryStore_Get NewMemoryStore 7 ''k'' = Inl ErrNotFound"
proof -
  let ?s = "snd (MemoryStore_Set NewMemoryStore 1000 ''k''
        (Some \<lparr>StatusCode = 200, Headers = [], Body = ''ok'', Timestamp = 1000\<rparr>) 50)"
  have a: "case data ?s ''k'' of None \<Rightarrow> True | Some e \<Rightarrow> 1051 > expiresAt e"
    by (simp add: MemoryStore_Set_def NewMemoryStore_def)
  have b: "case data NewMemoryStore ''k'' of None \<Rightarrow> True | Some e \<Rightarrow> 7 > expiresAt e"
    by (simp add: NewMemoryStore_def)
  show ?thesis
    using MemoryStore_Get_absent_or_expired [OF a, of 0]
          MemoryStore_Get_absent_or_expired [OF b, of 0]
    by simp
qed

section \<open>The lock of the networked store\<close>

text \<open>
  C8. For every key, \<^verbatim>\<open>RedisStore.Lock\<close> issues exactly one command, the set-if-absent of
  \<open>''lock:'' @ key\<close> with a TTL of 30 seconds. When the service answers and the lock key
  exists, the result is \<open>ErrRequestInProgress\<close> and no key changes; when it answers and the
  lock key does not exist, the result is the release closure and the lock key now exists
  until 30 seconds later. Called on any later state of the service, the closure issues the
  one command that deletes the lock key, after which, the service answering, the lock key
  does not exist.
\<close>

theorem RedisStore_Lock_setnx:
  shows "commands (snd (RedisStore_Lock r now key))
           = commands r @ [SetNX (''lock:'' @ key) ''1'' 30000000000]
       \<and> (\<not> unreachable r \<and> redis_exists r now (''lock:'' @ key) \<longrightarrow>
             fst (RedisStore_Lock r now key) = Inl ErrRequestInProgress
           \<and> keys (snd (RedisStore_Lock r now key)) = keys r)
       \<and> (\<not> unreachable r \<and> \<not> redis_exists r now (''lock:'' @ key) \<longrightarrow>
             fst (RedisStore_Lock r now key) = Inr (RedisStore_unlock (''lock:'' @ key))
           \<and> keys (snd (RedisStore_Lock r now key)) (''lock:'' @ key) = Some (''1'', now + 30000000000)
           \<and> (\<forall>t. redis_exists (snd (RedisStore_Lock r now key)) t (''lock:'' @ key)
                    = (t \<le> now + 30000000000)))
       \<and> commands (RedisStore_unlock (''lock:'' @ key) r') = commands r' @ [Del (''lock:'' @ key)]
       \<and> (\<not> unreachable r' \<longrightarrow> \<not> redis_exists (RedisStore_unlock (''lock:'' @ key) r') t' (''lock:'' @ key))"
  by (simp add: RedisStore_Lock_def RedisStore_unlock_def redis_SetNX_def redis_Del_def
        redis_exists_def lockTTL_def Let_def)

theorem RedisStore_Lock_setnx_witness:
  "fst (RedisStore_Lock \<lparr>keys = Map.empty, commands = [], unreachable = False\<rparr> 0 ''k'')
     = Inr (RedisStore_unlock ''lock:k'')
   \<and> fst (RedisStore_Lock
            (snd (RedisStore_Lock \<lparr>keys = Map.empty, commands = [], unreachable = False\<rparr> 0 ''k''))
            5 ''k'') = Inl ErrRequestInProgress
   \<and> \<not> redis_exists
          (RedisStore_unlock ''lock:k''
             (snd (RedisStore_Lock \<lparr>keys = Map.empty, commands = [], unreachable = False\<rparr> 0 ''k'')))
          5 ''lock:k''"
proof -
  let ?r0 = "\<lparr>keys = Map.empty, commands = [], unreachable = False\<rparr>"
  let ?r1 = "snd (RedisStore_Lock ?r0 0 ''k'')"
  have a: "\<not> unreachable ?r0 \<and> \<not> redis_exists ?r0 0 (''lock:'' @ ''k'')"
    by (simp add: redis_exists_def)
  have b: "\<not> unreachable ?r1 \<and> redis_exists ?r1 5 (''lock:'' @ ''k'')"
    by (simp add: RedisStore_Lock_def redis_SetNX_def redis_exists_def lockTTL_def Let_def)
  show ?thesis
    using a b RedisStore_Lock_setnx [of ?r0 0 "''k''" ?r1 5]
          RedisStore_Lock_setnx [of ?r1 5 "''k''" ?r1 5]
    by simp
qed

section \<open>Headers, writers and the recorder\<close>

lemma header_Values_Add:
  "header_Values (header_Add h k v) k' = (if k' = k then header_Values h k @ [v] else header_Values h k')"
  by (simp add: header_Values_def header_Add_def update_conv')

lemma header_Values_Set:
  "header_Values (header_Set h k v) k' = (if k' = k then [v] else header_Values h k')"
  by (simp add: header_Values_def header_Set_def update_conv')

lemma header_Values_Del:
  "header_Values (header_Del h k) k' = (if k' = k then [] else header_Values h k')"
  by (simp add: header_Values_def header_Del_def delete_conv')

lemma embedded_foldl_rec_do:
  "embedded (foldl rec_do rc acts) = foldl rw_do (embedded rc) acts"
proof (induction acts arbitrary: rc)
  case Nil
  then show ?case by simp
next
  case (Cons a acts)
  have "embedded (rec_do rc a) = rw_do (embedded rc) a"
    by (cases a) (simp_all add: rec_WriteHeader_def rec_Write_def)
  with Cons.IH [of "rec_do rc a"] show ?case by simp
qed

lemma ServeHTTP_recorder_tee:
  "ServeHTTP_recorder next rc r hs = (rc', hs') \<Longrightarrow> ServeHTTP next (embedded rc) r hs = (embedded rc', hs')"
  by (auto simp: ServeHTTP_recorder_def ServeHTTP_def embedded_foldl_rec_do split: prod.splits)

lemma rw_do_keeps_header:
  assumes "\<not> names_header k a"
    and "header_Values (rw_header w) k = vs"
    and "wroteHeader w \<longrightarrow> header_Values (sentHeader w) k = vs"
  shows "header_Values (rw_header (rw_do w a)) k = vs
       \<and> (wroteHeader (rw_do w a) \<longrightarrow> header_Values (sentHeader (rw_do w a)) k = vs)"
  using assms
  by (cases a) (auto simp: names_header_def header_Values_Add header_Values_Set header_Values_Del
      rw_WriteHeader_def rw_Write_def Let_def)

lemma foldl_rw_do_keeps_header:
  assumes "\<forall>a \<in> set acts. \<not> names_header k a"
    and "header_Values (rw_header w) k = vs"
    and "wroteHeader w \<longrightarrow> header_Values (sentHeader w) k = vs"
  shows "header_Values (resp_header (foldl rw_do w acts)) k = vs"
  using assms
proof (induction acts arbitrary: w)
  case Nil
  then show ?case by (simp add: resp_header_def)
next
  case (Cons a acts)
  have "\<not> names_header k a" using Cons.prems(1) by simp
  from rw_do_keeps_header [OF this Cons.prems(2) Cons.prems(3)]
  show ?case using Cons.IH [of "rw_do w a"] Cons.prems(1) by simp
qed

lemma resp_status_http_Error:
  "\<not> wroteHeader w \<Longrightarrow> resp_status (http_Error w msg c) = c"
  by (simp add: http_Error_def rw_Write_def rw_WriteHeader_def resp_status_def Let_def)

lemma defaultKeyFunc_fails_iff:
  "(\<exists>r'. defaultKeyFunc r key = (Inl err, r')) \<longleftrightarrow> snd (ReqBody r) = Some err"
  by (auto simp: defaultKeyFunc_def io_ReadAll_def Let_def split: option.splits)

lemma header_Values_add_all:
  "header_Values (foldl (\<lambda>h value. header_Add h key value) h vs) k
     = (if k = key then header_Values h key @ vs else header_Values h k)"
  by (induction vs arbitrary: h) (simp_all add: header_Values_Add)

lemma header_Values_add_keys:
  "distinct ks \<Longrightarrow>
   header_Values (foldl (\<lambda>h key. foldl (\<lambda>h value. header_Add h key value) h (f key)) h0 ks) k
     = (if k \<in> set ks then header_Values h0 k @ f k else header_Values h0 k)"
proof (induction ks arbitrary: h0)
  case Nil
  then show ?case by simp
next
  case (Cons key ks)
  then show ?case by (auto simp: header_Values_add_all)
qed

lemma header_Values_absent:
  "k \<notin> set (header_keys c) \<Longrightarrow> header_Values c k = []"
  by (simp add: header_keys_def header_Values_def map_of_eq_None_iff [THEN iffD2])

lemma header_Values_replay:
  "header_Values (foldl (\<lambda>h key. foldl (\<lambda>h value. header_Add h key value) h (header_Values c key))
                   h0 (header_keys c)) k
     = header_Values h0 k @ header_Values c k"
proof -
  have d: "distinct (header_keys c)" by (simp add: header_keys_def)
  show ?thesis
    using header_Values_add_keys [OF d, of "header_Values c" h0 k] header_Values_absent [of k c]
    by auto
qed

lemma writeCachedResponse_received:
  assumes "\<not> wroteHeader w"
  shows "resp_status (writeCachedResponse w cached) = StatusCode cached"
    and "resp_body (writeCachedResponse w cached) = written w @ Body cached"
    and "header_Values (resp_header (writeCachedResponse w cached)) k
           = (if k = ''X-Idempotency-Cached'' then [''true'']
              else header_Values (rw_header w) k @ header_Values (Headers cached) k)"
  using assms
  by (simp_all add: writeCachedResponse_def rw_Write_def rw_WriteHeader_def resp_status_def
      resp_body_def resp_header_def Let_def header_Values_Set header_Values_replay)


section \<open>The two paths after a successful Lock\<close>

lemma Middleware_hit:
  assumes "isIdempotentMethod (Method r)"
    and "header_Get (ReqHeader r) (HeaderName config) \<noteq> []"
    and "KeyFunc config r (header_Get (ReqHeader r) (HeaderName config)) = (Inr fullKey, r')"
    and "store_Lock store st (tLock clk) fullKey = (Inr unlock, st1)"
    and "store_Get store st1 (tGet clk) fullKey = (Inr (Some cached), st2)"
  shows "Middleware store config nxt clk w r st hs =
           \<lparr>res_w = writeCachedResponse w cached, res_store = unlock st2, res_handler = hs,
            res_calls = [CallKeyFunc, CallLock fullKey, CallGet fullKey, CallUnlock]\<rparr>"
  using assms by (simp add: Middleware_def Let_def)

lemma Middleware_miss:
  assumes "isIdempotentMethod (Method r)"
    and "header_Get (ReqHeader r) (HeaderName config) \<noteq> []"
    and "KeyFunc config r (header_Get (ReqHeader r) (HeaderName config)) = (Inr fullKey, r')"
    and "store_Lock store st (tLock clk) fullKey = (Inr unlock, st1)"
    and "store_Get store st1 (tGet clk) fullKey = (got, st2)"
    and "\<And>cached. got \<noteq> Inr (Some cached)"
  shows "Middleware store config nxt clk w r st hs =
           \<lparr>res_w = fst (ServeHTTP nxt w r' hs),
            res_store = unlock (snd (store_Set store st2 (tSet clk) fullKey
                                       (Some (captured nxt w r' hs (tNow clk))) (TTL config))),
            res_handler = snd (ServeHTTP nxt w r' hs),
            res_calls = [CallKeyFunc, CallLock fullKey, CallGet fullKey, CallNext,
                         CallSet fullKey (captured nxt w r' hs (tNow clk)) (TTL config), CallUnlock]\<rparr>"
proof -
  obtain rc hs' where sv:
    "ServeHTTP_recorder nxt \<lparr>embedded = w, statusCode = StatusOK, body = []\<rparr> r' hs = (rc, hs')"
    by (cases "ServeHTTP_recorder nxt \<lparr>embedded = w, statusCode = StatusOK, body = []\<rparr> r' hs")
  from ServeHTTP_recorder_tee [OF sv] have tee: "ServeHTTP nxt w r' hs = (embedded rc, hs')"
    by simp
  have cap: "captured nxt w r' hs (tNow clk) =
      \<lparr>StatusCode = statusCode rc, Headers = rw_header (embedded rc), Body = body rc,
       Timestamp = tNow clk\<rparr>"
    by (simp add: captured_def sv)
  show ?thesis
  proof (cases got)
    case (Inl err)
    then show ?thesis
      using assms(1-5) sv
      by (simp add: Middleware_def Let_def tee cap split: prod.splits)
  next
    case (Inr found)
    with assms(6) have "found = None" by (cases found) auto
    with Inr show ?thesis
      using assms(1-5) sv
      by (simp add: Middleware_def Let_def tee cap split: prod.splits)
  qed
qed

lemma foldl_rec_do_body:
  "body (foldl rec_do rc acts) = body rc @ bytes_written acts"
proof (induction acts arbitrary: rc)
  case Nil
  then show ?case by (simp add: bytes_written_def)
next
  case (Cons a acts)
  have "body (rec_do rc a) = body rc @ (case a of Write b \<Rightarrow> b | _ \<Rightarrow> [])"
    by (cases a) (simp_all add: rec_WriteHeader_def rec_Write_def)
  with Cons.IH [of "rec_do rc a"] show ?case by (simp add: bytes_written_def)
qed

lemma foldl_rec_do_statusCode:
  "statusCode (foldl rec_do rc acts) = last_status (statusCode rc) acts"
proof (induction acts arbitrary: rc)
  case Nil
  then show ?case by (simp add: last_status_def)
next
  case (Cons a acts)
  have "statusCode (rec_do rc a) = (case a of WriteHeader c' \<Rightarrow> c' | _ \<Rightarrow> statusCode rc)"
    by (cases a) (simp_all add: rec_WriteHeader_def rec_Write_def)
  with Cons.IH [of "rec_do rc a"] show ?case by (simp add: last_status_def)
qed

lemma captured_fields:
  "StatusCode (captured nxt w r hs now) = last_status 200 (fst (nxt hs r))"
  "Body (captured nxt w r hs now) = bytes_written (fst (nxt hs r))"
  "Headers (captured nxt w r hs now) = rw_header (fst (ServeHTTP nxt w r hs))"
  "Timestamp (captured nxt w r hs now) = now"
  by (simp_all add: captured_def ServeHTTP_recorder_def ServeHTTP_def foldl_rec_do_body
      foldl_rec_do_statusCode embedded_foldl_rec_do StatusOK_def split: prod.splits)

lemma Middleware_conflict:
  assumes "isIdempotentMethod (Method r)"
    and "header_Get (ReqHeader r) (HeaderName config) \<noteq> []"
    and "KeyFunc config r (header_Get (ReqHeader r) (HeaderName config)) = (Inr fullKey, r')"
    and "store_Lock store st (tLock clk) fullKey = (Inl ErrRequestInProgress, st1)"
  shows "Middleware store config nxt clk w r st hs =
           \<lparr>res_w = http_Error w ''Request already in progress'' 409,
            res_store = st1, res_handler = hs, res_calls = [CallKeyFunc, CallLock fullKey]\<rparr>"
  using assms by (simp add: Middleware_def Let_def StatusConflict_def)

subsection \<open>The path of a panicking handler\<close>

lemma ServeHTTP_unwind_returning:
  "ServeHTTP_unwind (returning nxt) w r hs
     = (fst (ServeHTTP nxt w r hs), snd (ServeHTTP nxt w r hs), None)"
  by (simp add: ServeHTTP_unwind_def ServeHTTP_def returning_def split: prod.splits)

lemma ServeHTTP_recorder_unwind_returning:
  "ServeHTTP_recorder_unwind (returning nxt) rc r hs
     = (fst (ServeHTTP_recorder nxt rc r hs), snd (ServeHTTP_recorder nxt rc r hs), None)"
  by (simp add: ServeHTTP_recorder_unwind_def ServeHTTP_recorder_def returning_def split: prod.splits)

lemma Middleware_unwind_returning:
  "Middleware_unwind store config (returning nxt) clk w r st hs
     = (Middleware store config nxt clk w r st hs, None)"
  by (simp add: Middleware_unwind_def Middleware_def ServeHTTP_unwind_returning
      ServeHTTP_recorder_unwind_returning Let_def
      split: prod.splits sum.splits option.splits)

lemma Middleware_unwind_panic:
  assumes "isIdempotentMethod (Method r)"
    and "header_Get (ReqHeader r) (HeaderName config) \<noteq> []"
    and "KeyFunc config r (header_Get (ReqHeader r) (HeaderName config)) = (Inr fullKey, r')"
    and "store_Lock store st (tLock clk) fullKey = (Inr unlock, st1)"
    and "store_Get store st1 (tGet clk) fullKey = (got, st2)"
    and "\<And>cached. got \<noteq> Inr (Some cached)"
    and "nxt hs r' = (acts, hs', Some p)"
  shows "Middleware_unwind store config nxt clk w r st hs =
           (\<lparr>res_w = foldl rw_do w acts, res_store = st2, res_handler = hs',
             res_calls = [CallKeyFunc, CallLock fullKey, CallGet fullKey, CallNext]\<rparr>, Some p)"
proof -
  have sv: "ServeHTTP_recorder_unwind nxt \<lparr>embedded = w, statusCode = StatusOK, body = []\<rparr> r' hs
      = (foldl rec_do \<lparr>embedded = w, statusCode = StatusOK, body = []\<rparr> acts, hs', Some p)"
    by (simp add: ServeHTTP_recorder_unwind_def assms(7))
  show ?thesis
  proof (cases got)
    case (Inl err)
    then show ?thesis
      using assms(1-5) by (simp add: Middleware_unwind_def Let_def sv embedded_foldl_rec_do)
  next
    case (Inr found)
    with assms(6) have "found = None" by (cases found) auto
    with Inr show ?thesis
      using assms(1-5) by (simp add: Middleware_unwind_def Let_def sv embedded_foldl_rec_do)
  qed
qed


section \<open>Requests that bypass the idempotency path\<close>

text \<open>
  C6. When the method is not POST, PATCH or PUT, or the configured header is absent or
  empty, the middleware calls only the wrapped handler, once, with the writer and the request
  it was given: the response and the handler's state are those of calling the handler
  directly, the store is untouched, and no key function, lock, lookup or write happens.
  When the response had no \<^verbatim>\<open>X-Idempotency-Cached\<close> header and the handler does not name
  it, the response has none.
\<close>

theorem Middleware_bypass:
  assumes "\<not> isIdempotentMethod (Method r) \<or> header_Get (ReqHeader r) (HeaderName config) = []"
  shows "res_calls (Middleware store config next clk w r st hs) = [CallNext]
       \<and> res_store (Middleware store config next clk w r st hs) = st
       \<and> (res_w (Middleware store config next clk w r st hs),
           res_handler (Middleware store config next clk w r st hs)) = ServeHTTP next w r hs
       \<and> ((\<forall>a \<in> set (fst (next hs r)). \<not> names_header ''X-Idempotency-Cached'' a)
            \<and> header_Values (rw_header w) ''X-Idempotency-Cached'' = [] \<and> \<not> wroteHeader w
          \<longrightarrow> header_Values (resp_header (res_w (Middleware store config next clk w r st hs)))
                ''X-Idempotency-Cached'' = [])"
proof -
  have m: "Middleware store config next clk w r st hs =
        (case ServeHTTP next w r hs of (w', hs') \<Rightarrow>
           \<lparr>res_w = w', res_store = st, res_handler = hs', res_calls = [CallNext]\<rparr>)"
    using assms by (auto simp: Middleware_def Let_def)
  obtain acts hs' where n: "next hs r = (acts, hs')" by (cases "next hs r")
  have s: "ServeHTTP next w r hs = (foldl rw_do w acts, hs')"
    by (simp add: ServeHTTP_def n)
  have k: "(\<forall>a \<in> set acts. \<not> names_header ''X-Idempotency-Cached'' a)
            \<and> header_Values (rw_header w) ''X-Idempotency-Cached'' = [] \<and> \<not> wroteHeader w
          \<longrightarrow> header_Values (resp_header (foldl rw_do w acts)) ''X-Idempotency-Cached'' = []"
    using foldl_rw_do_keeps_header [of acts "''X-Idempotency-Cached''" w "[]"] by blast
  show ?thesis using k by (simp add: m s n)
qed

theorem Middleware_bypass_witness:
  "\<not> isIdempotentMethod (Method (test_request ''GET'' ''/api/payment'' []))
   \<and> res_calls (Middleware MemoryStore_impl defaultConfig test_handler (test_clock 0) NewRecorder
        (test_request ''GET'' ''/api/payment'' []) NewMemoryStore 0) = [CallNext]
   \<and> res_handler (Middleware MemoryStore_impl defaultConfig test_handler (test_clock 0) NewRecorder
        (test_request ''GET'' ''/api/payment'' []) NewMemoryStore 0) = 1
   \<and> header_Values (resp_header (res_w (Middleware MemoryStore_impl defaultConfig test_handler
        (test_clock 0) NewRecorder (test_request ''GET'' ''/api/payment'' []) NewMemoryStore 0)))
        ''X-Idempotency-Cached'' = []
   \<and> header_Get (ReqHeader keyless_request) (HeaderName defaultConfig) = []
   \<and> res_calls (Middleware MemoryStore_impl defaultConfig test_handler (test_clock 0) NewRecorder
        keyless_request NewMemoryStore 0) = [CallNext]
   \<and> res_store (Middleware MemoryStore_impl defaultConfig test_handler (test_clock 0) NewRecorder
        keyless_request NewMemoryStore 0) = NewMemoryStore
   \<and> resp_status (res_w (Middleware MemoryStore_impl defaultConfig test_handler (test_clock 0)
        NewRecorder keyless_request NewMemoryStore 0)) = 200"
proof -
  let ?r = "test_request ''GET'' ''/api/payment'' []"
  have h: "\<not> isIdempotentMethod (Method ?r) \<or> header_Get (ReqHeader ?r) (HeaderName defaultConfig) = []"
    by (simp add: isIdempotentMethod_def test_request_def)
  have n: "(\<forall>a \<in> set (fst (test_handler 0 ?r)). \<not> names_header ''X-Idempotency-Cached'' a)
         \<and> header_Values (rw_header NewRecorder) ''X-Idempotency-Cached'' = [] \<and> \<not> wroteHeader NewRecorder"
    by (simp add: test_handler_def names_header_def NewRecorder_def header_Values_def)
  have g: "\<not> isIdempotentMethod (Method ?r)"
    by (simp add: isIdempotentMethod_def test_request_def)
  have s: "snd (ServeHTTP test_handler NewRecorder ?r 0) = 1"
    by (simp add: ServeHTTP_def test_handler_def)
  have e: "header_Get (ReqHeader keyless_request) (HeaderName defaultConfig) = []"
    by (simp add: keyless_request_def header_Get_def header_Values_def)
  have h': "\<not> isIdempotentMethod (Method keyless_request)
            \<or> header_Get (ReqHeader keyless_request) (HeaderName defaultConfig) = []"
    using e by simp
  have s': "resp_status (fst (ServeHTTP test_handler NewRecorder keyless_request 0)) = 200"
    by (simp add: ServeHTTP_def test_handler_def NewRecorder_def rw_WriteHeader_def rw_Write_def
        resp_status_def)
  note T1 = Middleware_bypass [OF h, of MemoryStore_impl test_handler "test_clock 0" NewRecorder
      NewMemoryStore 0]
  note T2 = Middleware_bypass [OF h', of MemoryStore_impl test_handler "test_clock 0" NewRecorder
      NewMemoryStore 0]
  have c1: "res_calls (Middleware MemoryStore_impl defaultConfig test_handler (test_clock 0)
        NewRecorder ?r NewMemoryStore 0) = [CallNext]"
    "res_handler (Middleware MemoryStore_impl defaultConfig test_handler (test_clock 0)
        NewRecorder ?r NewMemoryStore 0) = 1"
    "header_Values (resp_header (res_w (Middleware MemoryStore_impl defaultConfig test_handler
        (test_clock 0) NewRecorder ?r NewMemoryStore 0))) ''X-Idempotency-Cached'' = []"
    using T1 n s by (blast, metis snd_conv, blast)
  have c2: "res_calls (Middleware MemoryStore_impl defaultConfig test_handler (test_clock 0)
        NewRecorder keyless_request NewMemoryStore 0) = [CallNext]"
    "res_store (Middleware MemoryStore_impl defaultConfig test_handler (test_clock 0)
        NewRecorder keyless_request NewMemoryStore 0) = NewMemoryStore"
    "resp_status (res_w (Middleware MemoryStore_impl defaultConfig test_handler (test_clock 0)
        NewRecorder keyless_request NewMemoryStore 0)) = 200"
    using T2 s' by (blast, blast, metis fst_conv)
  show ?thesis
    using g e c1 c2 by blast
qed

section \<open>Failures before the wrapped handler\<close>

text \<open>
  C4. On the idempotency path (method POST, PATCH or PUT and a non-empty key header):
  when the key function fails, the middleware answers with \<^verbatim>\<open>http.Error\<close> 400 and has called
  neither the store nor the handler; when \<^verbatim>\<open>Lock\<close> returns \<open>ErrRequestInProgress\<close> it answers
  409, and when \<^verbatim>\<open>Lock\<close> returns any other error it answers 500, in both cases after the
  key function and \<^verbatim>\<open>Lock\<close> only. The handler's state is unchanged in all three, and the
  status reaches the client when nothing had been written to the response before.
\<close>

theorem Middleware_aborts_before_handler:
  fixes store :: "'s Store" and nxt :: "'h Handler" and config clk w r st hs
  defines "R \<equiv> Middleware store config nxt clk w r st hs"
  assumes m: "isIdempotentMethod (Method r)"
    and k: "header_Get (ReqHeader r) (HeaderName config) \<noteq> []"
  shows "(\<forall>err r'. KeyFunc config r (header_Get (ReqHeader r) (HeaderName config)) = (Inl err, r') \<longrightarrow>
            res_w R = http_Error w ''Invalid idempotency key'' 400
          \<and> res_calls R = [CallKeyFunc] \<and> res_store R = st \<and> res_handler R = hs
          \<and> (\<not> wroteHeader w \<longrightarrow> resp_status (res_w R) = 400))
       \<and> (\<forall>fullKey r' st1.
            KeyFunc config r (header_Get (ReqHeader r) (HeaderName config)) = (Inr fullKey, r')
            \<and> store_Lock store st (tLock clk) fullKey = (Inl ErrRequestInProgress, st1) \<longrightarrow>
            res_w R = http_Error w ''Request already in progress'' 409
          \<and> res_calls R = [CallKeyFunc, CallLock fullKey] \<and> res_store R = st1 \<and> res_handler R = hs
          \<and> (\<not> wroteHeader w \<longrightarrow> resp_status (res_w R) = 409))
       \<and> (\<forall>fullKey r' st1 err.
            KeyFunc config r (header_Get (ReqHeader r) (HeaderName config)) = (Inr fullKey, r')
            \<and> store_Lock store st (tLock clk) fullKey = (Inl err, st1)
            \<and> err \<noteq> ErrRequestInProgress \<longrightarrow>
            res_w R = http_Error w ''Internal server error'' 500
          \<and> res_calls R = [CallKeyFunc, CallLock fullKey] \<and> res_store R = st1 \<and> res_handler R = hs
          \<and> (\<not> wroteHeader w \<longrightarrow> resp_status (res_w R) = 500))"
proof (intro conjI allI impI)
  fix err r'
  assume a: "KeyFunc config r (header_Get (ReqHeader r) (HeaderName config)) = (Inl err, r')"
  have e: "R = \<lparr>res_w = http_Error w ''Invalid idempotency key'' 400,
                res_store = st, res_handler = hs, res_calls = [CallKeyFunc]\<rparr>"
    using m k a by (simp add: R_def Middleware_def Let_def StatusBadRequest_def)
  show "res_w R = http_Error w ''Invalid idempotency key'' 400" by (simp add: e)
  show "res_calls R = [CallKeyFunc]" by (simp add: e)
  show "res_store R = st" by (simp add: e)
  show "res_handler R = hs" by (simp add: e)
  show "resp_status (res_w R) = 400" if "\<not> wroteHeader w"
    using that by (simp add: e resp_status_http_Error)
next
  fix fullKey r' st1
  assume a: "KeyFunc config r (header_Get (ReqHeader r) (HeaderName config)) = (Inr fullKey, r')
            \<and> store_Lock store st (tLock clk) fullKey = (Inl ErrRequestInProgress, st1)"
  have e: "R = \<lparr>res_w = http_Error w ''Request already in progress'' 409,
                res_store = st1, res_handler = hs, res_calls = [CallKeyFunc, CallLock fullKey]\<rparr>"
    using m k a by (simp add: R_def Middleware_def Let_def StatusConflict_def)
  show "res_w R = http_Error w ''Request already in progress'' 409" by (simp add: e)
  show "res_calls R = [CallKeyFunc, CallLock fullKey]" by (simp add: e)
  show "res_store R = st1" by (simp add: e)
  show "res_handler R = hs" by (simp add: e)
  show "resp_status (res_w R) = 409" if "\<not> wroteHeader w"
    using that by (simp add: e resp_status_http_Error)
next
  fix fullKey r' st1 err
  assume a: "KeyFunc config r (header_Get (ReqHeader r) (HeaderName config)) = (Inr fullKey, r')
            \<and> store_Lock store st (tLock clk) fullKey = (Inl err, st1)
            \<and> err \<noteq> ErrRequestInProgress"
  have e: "R = \<lparr>res_w = http_Error w ''Internal server error'' 500,
                res_store = st1, res_handler = hs, res_calls = [CallKeyFunc, CallLock fullKey]\<rparr>"
    using m k a by (simp add: R_def Middleware_def Let_def StatusInternalServerError_def)
  show "res_w R = http_Error w ''Internal server error'' 500" by (simp add: e)
  show "res_calls R = [CallKeyFunc, CallLock fullKey]" by (simp add: e)
  show "res_store R = st1" by (simp add: e)
  show "res_handler R = hs" by (simp add: e)
  show "resp_status (res_w R) = 500" if "\<not> wroteHeader w"
    using that by (simp add: e resp_status_http_Error)
qed

theorem Middleware_aborts_before_handler_witness:
  "isIdempotentMethod (Method truncated_request)
   \<and> header_Get (ReqHeader truncated_request) (HeaderName defaultConfig) \<noteq> []
   \<and> resp_status (res_w (Middleware MemoryStore_impl defaultConfig test_handler (test_clock 0)
         NewRecorder truncated_request NewMemoryStore 0)) = 400
   \<and> res_calls (Middleware MemoryStore_impl defaultConfig test_handler (test_clock 0)
         NewRecorder truncated_request NewMemoryStore 0) = [CallKeyFunc]
   \<and> resp_status (res_w (Middleware MemoryStore_impl defaultConfig test_handler (test_clock 0)
         NewRecorder (test_request ''POST'' ''/api/payment'' amount_100)
         (snd (MemoryStore_Lock NewMemoryStore (test_fullKey amount_100))) 0)) = 409
   \<and> res_handler (Middleware MemoryStore_impl defaultConfig test_handler (test_clock 0)
         NewRecorder (test_request ''POST'' ''/api/payment'' amount_100)
         (snd (MemoryStore_Lock NewMemoryStore (test_fullKey amount_100))) 0) = 0
   \<and> resp_status (res_w (Middleware unreachable_store defaultConfig test_handler (test_clock 0)
         NewRecorder (test_request ''POST'' ''/api/payment'' amount_100) () 0)) = 500"
proof -
  let ?t = truncated_request
  let ?r = "test_request ''POST'' ''/api/payment'' amount_100"
  let ?held = "snd (MemoryStore_Lock NewMemoryStore (test_fullKey amount_100))"
  have nw: "\<not> wroteHeader NewRecorder" by (simp add: NewRecorder_def)
  have m1: "isIdempotentMethod (Method ?t)"
    by (simp add: isIdempotentMethod_def truncated_request_def)
  have k1: "header_Get (ReqHeader ?t) (HeaderName defaultConfig) \<noteq> []"
    by (simp add: truncated_request_def defaultConfig_def DefaultHeaderName_def header_Get_def
        header_Values_def)
  have a1: "KeyFunc defaultConfig ?t (header_Get (ReqHeader ?t) (HeaderName defaultConfig))
            = (Inl (ErrOther ''unexpected EOF''), ?t\<lparr>ReqBody := ([], Some (ErrOther ''unexpected EOF''))\<rparr>)"
    by (simp add: truncated_request_def defaultConfig_def defaultKeyFunc_def io_ReadAll_def)
  have m2: "isIdempotentMethod (Method ?r)"
    by (simp add: isIdempotentMethod_def test_request_def)
  have k2: "header_Get (ReqHeader ?r) (HeaderName defaultConfig) \<noteq> []"
    by (simp add: test_request_def defaultConfig_def DefaultHeaderName_def header_Get_def
        header_Values_def)
  have a2: "KeyFunc defaultConfig ?r (header_Get (ReqHeader ?r) (HeaderName defaultConfig))
            = (Inr (test_fullKey amount_100), ?r)"
    by (simp add: test_request_def defaultConfig_def DefaultHeaderName_def header_Get_def
        header_Values_def defaultKeyFunc_def io_ReadAll_def test_fullKey_def)
  have l2: "store_Lock MemoryStore_impl ?held (tLock (test_clock 0)) (test_fullKey amount_100)
            = (Inl ErrRequestInProgress, snd (MemoryStore_Lock ?held (test_fullKey amount_100)))"
    by (simp add: MemoryStore_impl_def MemoryStore_Lock_def NewMemoryStore_def mutex_of_def Let_def)
  have l3: "store_Lock unreachable_store () (tLock (test_clock 0)) (test_fullKey amount_100)
            = (Inl (ErrOther ''dial tcp: connection refused''), ())
          \<and> ErrOther ''dial tcp: connection refused'' \<noteq> ErrRequestInProgress"
    by (simp add: unreachable_store_def)
  note T1 = Middleware_aborts_before_handler [where r = ?t and config = defaultConfig
      and store = MemoryStore_impl and nxt = test_handler and clk = "test_clock 0"
      and w = NewRecorder and st = NewMemoryStore and hs = 0, OF m1 k1]
  note T2 = Middleware_aborts_before_handler [where r = ?r and config = defaultConfig
      and store = MemoryStore_impl and nxt = test_handler and clk = "test_clock 0"
      and w = NewRecorder and st = ?held and hs = 0, OF m2 k2]
  note T3 = Middleware_aborts_before_handler [where r = ?r and config = defaultConfig
      and store = unreachable_store and nxt = test_handler and clk = "test_clock 0"
      and w = NewRecorder and st = "()" and hs = 0, OF m2 k2]
  have c1: "resp_status (res_w (Middleware MemoryStore_impl defaultConfig test_handler (test_clock 0)
         NewRecorder ?t NewMemoryStore 0)) = 400
       \<and> res_calls (Middleware MemoryStore_impl defaultConfig test_handler (test_clock 0)
         NewRecorder ?t NewMemoryStore 0) = [CallKeyFunc]"
    using T1 a1 nw by blast
  have c2: "resp_status (res_w (Middleware MemoryStore_impl defaultConfig test_handler (test_clock 0)
         NewRecorder ?r ?held 0)) = 409
       \<and> res_handler (Middleware MemoryStore_impl defaultConfig test_handler (test_clock 0)
         NewRecorder ?r ?held 0) = 0"
    using T2 a2 l2 nw by blast
  have c3: "resp_status (res_w (Middleware unreachable_store defaultConfig test_handler (test_clock 0)
         NewRecorder ?r () 0)) = 500"
    using T3 a2 l3 nw by blast
  show ?thesis using m1 k1 c1 c2 c3 by blast
qed

section \<open>Cache hit\<close>

text \<open>
  C3. On the idempotency path, when \<^verbatim>\<open>Lock\<close> succeeded and \<^verbatim>\<open>store.Get\<close> returns a cached
  response without error, the middleware calls the closure next and nothing else on the
  store, does not call the wrapped handler, and writes the cached response: the status is
  the stored status, the stored body is appended to the body, every stored header value is
  added after the values the response already had under that name, and
  \<^verbatim>\<open>X-Idempotency-Cached\<close> is set to \<^verbatim>\<open>true\<close>. On a response writer on which nothing was set
  or written these are the stored status, headers and body, and the marker.
\<close>

theorem Middleware_cache_hit:
  fixes store :: "'s Store" and nxt :: "'h Handler" and config clk w r st hs
  defines "R \<equiv> Middleware store config nxt clk w r st hs"
  assumes m: "isIdempotentMethod (Method r)"
    and k: "header_Get (ReqHeader r) (HeaderName config) \<noteq> []"
    and kf: "KeyFunc config r (header_Get (ReqHeader r) (HeaderName config)) = (Inr fullKey, r')"
    and lk: "store_Lock store st (tLock clk) fullKey = (Inr unlock, st1)"
    and g: "store_Get store st1 (tGet clk) fullKey = (Inr (Some cached), st2)"
  shows "res_calls R = [CallKeyFunc, CallLock fullKey, CallGet fullKey, CallUnlock]
       \<and> res_store R = unlock st2
       \<and> res_handler R = hs
       \<and> res_w R = writeCachedResponse w cached
       \<and> (\<not> wroteHeader w \<longrightarrow>
             resp_status (res_w R) = StatusCode cached
           \<and> resp_body (res_w R) = written w @ Body cached
           \<and> (\<forall>name. header_Values (resp_header (res_w R)) name
                 = (if name = ''X-Idempotency-Cached'' then [''true'']
                    else header_Values (rw_header w) name @ header_Values (Headers cached) name)))
       \<and> (\<not> wroteHeader w \<and> rw_header w = [] \<and> written w = [] \<longrightarrow>
             resp_status (res_w R) = StatusCode cached
           \<and> resp_body (res_w R) = Body cached
           \<and> (\<forall>name. header_Values (resp_header (res_w R)) name
                 = (if name = ''X-Idempotency-Cached'' then [''true'']
                    else header_Values (Headers cached) name)))"
proof -
  have e: "R = \<lparr>res_w = writeCachedResponse w cached, res_store = unlock st2, res_handler = hs,
                res_calls = [CallKeyFunc, CallLock fullKey, CallGet fullKey, CallUnlock]\<rparr>"
    using m k kf lk g by (simp add: R_def Middleware_def Let_def)
  have v: "header_Values [] name = []" for name
    by (simp add: header_Values_def)
  show ?thesis
    by (simp add: e writeCachedResponse_received v)
qed

theorem Middleware_cache_hit_witness:
  "isIdempotentMethod (Method (test_request ''POST'' ''/api/payment'' amount_100))
   \<and> header_Get (ReqHeader (test_request ''POST'' ''/api/payment'' amount_100))
         (HeaderName defaultConfig) = ''test-123''
   \<and> store_Get MemoryStore_impl
         (snd (MemoryStore_Lock
            (snd (MemoryStore_Set NewMemoryStore 0 (test_fullKey amount_100) (Some test_response) DefaultTTL))
            (test_fullKey amount_100)))
         (tGet (test_clock 10)) (test_fullKey amount_100)
       = (Inr (Some test_response),
          snd (MemoryStore_Lock
            (snd (MemoryStore_Set NewMemoryStore 0 (test_fullKey amount_100) (Some test_response) DefaultTTL))
            (test_fullKey amount_100)))
   \<and> resp_status (res_w (Middleware MemoryStore_impl defaultConfig test_handler (test_clock 10)
         NewRecorder (test_request ''POST'' ''/api/payment'' amount_100)
         (snd (MemoryStore_Set NewMemoryStore 0 (test_fullKey amount_100) (Some test_response) DefaultTTL))
         0)) = 200
   \<and> resp_body (res_w (Middleware MemoryStore_impl defaultConfig test_handler (test_clock 10)
         NewRecorder (test_request ''POST'' ''/api/payment'' amount_100)
         (snd (MemoryStore_Set NewMemoryStore 0 (test_fullKey amount_100) (Some test_response) DefaultTTL))
         0)) = Body test_response
   \<and> header_Values (resp_header (res_w (Middleware MemoryStore_impl defaultConfig test_handler
         (test_clock 10) NewRecorder (test_request ''POST'' ''/api/payment'' amount_100)
         (snd (MemoryStore_Set NewMemoryStore 0 (test_fullKey amount_100) (Some test_response) DefaultTTL))
         0))) ''X-Idempotency-Cached'' = [''true'']
   \<and> header_Values (resp_header (res_w (Middleware MemoryStore_impl defaultConfig test_handler
         (test_clock 10) NewRecorder (test_request ''POST'' ''/api/payment'' amount_100)
         (snd (MemoryStore_Set NewMemoryStore 0 (test_fullKey amount_100) (Some test_response) DefaultTTL))
         0))) ''Content-Type'' = [''application/json'']
   \<and> res_handler (Middleware MemoryStore_impl defaultConfig test_handler (test_clock 10)
         NewRecorder (test_request ''POST'' ''/api/payment'' amount_100)
         (snd (MemoryStore_Set NewMemoryStore 0 (test_fullKey amount_100) (Some test_response) DefaultTTL))
         0) = 0"
proof -
  let ?r = "test_request ''POST'' ''/api/payment'' amount_100"
  let ?fk = "test_fullKey amount_100"
  let ?st = "snd (MemoryStore_Set NewMemoryStore 0 ?fk (Some test_response) DefaultTTL)"
  let ?st1 = "snd (MemoryStore_Lock ?st ?fk)"
  have fresh: "\<not> wroteHeader NewRecorder \<and> rw_header NewRecorder = [] \<and> written NewRecorder = []"
    by (simp add: NewRecorder_def)
  have m: "isIdempotentMethod (Method ?r)"
    by (simp add: isIdempotentMethod_def test_request_def)
  have k': "header_Get (ReqHeader ?r) (HeaderName defaultConfig) = ''test-123''"
    by (simp add: test_request_def defaultConfig_def DefaultHeaderName_def header_Get_def
        header_Values_def)
  have k: "header_Get (ReqHeader ?r) (HeaderName defaultConfig) \<noteq> []"
    by (simp add: k')
  have kf: "KeyFunc defaultConfig ?r (header_Get (ReqHeader ?r) (HeaderName defaultConfig))
            = (Inr ?fk, ?r)"
    by (simp add: k') (simp add: test_request_def defaultConfig_def defaultKeyFunc_def
        io_ReadAll_def test_fullKey_def)
  have lk: "store_Lock MemoryStore_impl ?st (tLock (test_clock 10)) ?fk
            = (Inr (MemoryStore_unlock ?fk), ?st1)"
    by (simp add: MemoryStore_impl_def MemoryStore_Lock_def MemoryStore_Set_def NewMemoryStore_def
        mutex_of_def Let_def)
  have g: "store_Get MemoryStore_impl ?st1 (tGet (test_clock 10)) ?fk = (Inr (Some test_response), ?st1)"
    by (simp add: MemoryStore_impl_def MemoryStore_Get_def MemoryStore_Lock_def MemoryStore_Set_def
        NewMemoryStore_def mutex_of_def Let_def test_clock_def DefaultTTL_def)
  have hv: "header_Values (Headers test_response) ''Content-Type'' = [''application/json'']"
    by (simp add: test_response_def header_Values_def)
  note T = Middleware_cache_hit [where store = MemoryStore_impl and config = defaultConfig
      and nxt = test_handler and clk = "test_clock 10" and w = NewRecorder and r = ?r
      and st = ?st and hs = 0, OF m k kf lk g]
  from T fresh have
    c: "resp_status (res_w (Middleware MemoryStore_impl defaultConfig test_handler (test_clock 10)
          NewRecorder ?r ?st 0)) = StatusCode test_response"
       "resp_body (res_w (Middleware MemoryStore_impl defaultConfig test_handler (test_clock 10)
          NewRecorder ?r ?st 0)) = Body test_response"
       "\<forall>name. header_Values (resp_header (res_w (Middleware MemoryStore_impl defaultConfig
          test_handler (test_clock 10) NewRecorder ?r ?st 0))) name
          = (if name = ''X-Idempotency-Cached'' then [''true'']
             else header_Values (Headers test_response) name)"
       "res_handler (Middleware MemoryStore_impl defaultConfig test_handler (test_clock 10)
          NewRecorder ?r ?st 0) = 0"
    by blast+
  have s: "StatusCode test_response = 200" by (simp add: test_response_def)
  show ?thesis
    using m k' g c(1) c(2) c(3) [rule_format, of "''X-Idempotency-Cached''"]
      c(3) [rule_format, of "''Content-Type''"] c(4) hv s
    by simp
qed

section \<open>Release of the lock\<close>

subsection \<open>Handlers that return\<close>

text \<open>
  With a handler that returns: on the idempotency path, when \<^verbatim>\<open>Lock\<close> succeeded, the
  middleware calls the closure exactly once, as its last call, and the store it leaves is the
  closure applied to the store after the preceding call; this holds on the cache-hit path and
  on the path through the handler, whatever \<^verbatim>\<open>store.Set\<close> returns. Replacing \<^verbatim>\<open>Set\<close> by any
  other function (one that fails, one that succeeds) changes neither the response nor the
  handler's state nor the number of calls of the closure.
\<close>

lemma Middleware_unlocks_once:
  fixes store :: "'s Store" and nxt :: "'h Handler" and config clk w r st hs
  defines "R \<equiv> Middleware store config nxt clk w r st hs"
  assumes m: "isIdempotentMethod (Method r)"
    and k: "header_Get (ReqHeader r) (HeaderName config) \<noteq> []"
    and kf: "KeyFunc config r (header_Get (ReqHeader r) (HeaderName config)) = (Inr fullKey, r')"
    and lk: "store_Lock store st (tLock clk) fullKey = (Inr unlock, st1)"
  shows "count_list (res_calls R) CallUnlock = 1
       \<and> last (res_calls R) = CallUnlock
       \<and> (res_calls R = [CallKeyFunc, CallLock fullKey, CallGet fullKey, CallUnlock]
            \<and> res_store R = unlock (snd (store_Get store st1 (tGet clk) fullKey))
          \<or> res_calls R = [CallKeyFunc, CallLock fullKey, CallGet fullKey, CallNext,
                            CallSet fullKey (captured nxt w r' hs (tNow clk)) (TTL config), CallUnlock]
            \<and> res_store R = unlock (snd (store_Set store (snd (store_Get store st1 (tGet clk) fullKey))
                                   (tSet clk) fullKey (Some (captured nxt w r' hs (tNow clk))) (TTL config)))
            \<and> (res_w R, res_handler R) = ServeHTTP nxt w r' hs)
       \<and> (\<forall>set'. res_w (Middleware (store\<lparr>store_Set := set'\<rparr>) config nxt clk w r st hs) = res_w R
                \<and> res_handler (Middleware (store\<lparr>store_Set := set'\<rparr>) config nxt clk w r st hs)
                    = res_handler R
                \<and> count_list (res_calls (Middleware (store\<lparr>store_Set := set'\<rparr>) config nxt clk w r st hs))
                    CallUnlock = 1)"
proof -
  obtain got st2 where g: "store_Get store st1 (tGet clk) fullKey = (got, st2)"
    by (cases "store_Get store st1 (tGet clk) fullKey")
  show ?thesis
  proof (cases "\<exists>cached. got = Inr (Some cached)")
    case True
    then obtain cached where c: "got = Inr (Some cached)" by blast
    have g1: "store_Get store st1 (tGet clk) fullKey = (Inr (Some cached), st2)"
      using g c by simp
    have e: "R = \<lparr>res_w = writeCachedResponse w cached, res_store = unlock st2, res_handler = hs,
            res_calls = [CallKeyFunc, CallLock fullKey, CallGet fullKey, CallUnlock]\<rparr>"
      unfolding R_def by (rule Middleware_hit [OF m k kf lk g1])
    have e': "Middleware (store\<lparr>store_Set := set'\<rparr>) config nxt clk w r st hs =
           \<lparr>res_w = writeCachedResponse w cached, res_store = unlock st2, res_handler = hs,
            res_calls = [CallKeyFunc, CallLock fullKey, CallGet fullKey, CallUnlock]\<rparr>" for set'
    proof -
      have lk': "store_Lock (store\<lparr>store_Set := set'\<rparr>) st (tLock clk) fullKey = (Inr unlock, st1)"
        using lk by simp
      have g': "store_Get (store\<lparr>store_Set := set'\<rparr>) st1 (tGet clk) fullKey
                  = (Inr (Some cached), st2)"
        using g1 by simp
      show ?thesis by (rule Middleware_hit [OF m k kf lk' g'])
    qed
    show ?thesis by (simp add: e e' g)
  next
    case False
    then have n: "\<And>cached. got \<noteq> Inr (Some cached)" by blast
    have e: "R = \<lparr>res_w = fst (ServeHTTP nxt w r' hs),
            res_store = unlock (snd (store_Set store st2 (tSet clk) fullKey
                                       (Some (captured nxt w r' hs (tNow clk))) (TTL config))),
            res_handler = snd (ServeHTTP nxt w r' hs),
            res_calls = [CallKeyFunc, CallLock fullKey, CallGet fullKey, CallNext,
                         CallSet fullKey (captured nxt w r' hs (tNow clk)) (TTL config), CallUnlock]\<rparr>"
      unfolding R_def by (rule Middleware_miss [OF m k kf lk g n])
    have e': "Middleware (store\<lparr>store_Set := set'\<rparr>) config nxt clk w r st hs =
           \<lparr>res_w = fst (ServeHTTP nxt w r' hs),
            res_store = unlock (snd (set' st2 (tSet clk) fullKey
                                       (Some (captured nxt w r' hs (tNow clk))) (TTL config))),
            res_handler = snd (ServeHTTP nxt w r' hs),
            res_calls = [CallKeyFunc, CallLock fullKey, CallGet fullKey, CallNext,
                         CallSet fullKey (captured nxt w r' hs (tNow clk)) (TTL config), CallUnlock]\<rparr>" for set'
    proof -
      have lk': "store_Lock (store\<lparr>store_Set := set'\<rparr>) st (tLock clk) fullKey = (Inr unlock, st1)"
        using lk by simp
      have g': "store_Get (store\<lparr>store_Set := set'\<rparr>) st1 (tGet clk) fullKey = (got, st2)"
        using g by simp
      show ?thesis using Middleware_miss [OF m k kf lk' g' n, of nxt w hs] by simp
    qed
    show ?thesis by (simp add: e e' g)
  qed
qed

lemma Middleware_unlocks_once_returning_example:
  "isIdempotentMethod (Method (test_request ''POST'' ''/api/payment'' amount_100))
   \<and> store_Lock timing_out_store () (tLock (test_clock 0)) (test_fullKey amount_100) = (Inr (\<lambda>s. s), ())
   \<and> store_Set timing_out_store () (tSet (test_clock 0)) (test_fullKey amount_100)
        (Some (captured test_handler NewRecorder (test_request ''POST'' ''/api/payment'' amount_100) 0
                 (tNow (test_clock 0)))) (TTL defaultConfig) = (Some (ErrOther ''i/o timeout''), ())
   \<and> count_list (res_calls (Middleware timing_out_store defaultConfig test_handler (test_clock 0)
        NewRecorder (test_request ''POST'' ''/api/payment'' amount_100) () 0)) CallUnlock = 1
   \<and> last (res_calls (Middleware timing_out_store defaultConfig test_handler (test_clock 0)
        NewRecorder (test_request ''POST'' ''/api/payment'' amount_100) () 0)) = CallUnlock
   \<and> res_w (Middleware (timing_out_store\<lparr>store_Set := (\<lambda>s now key resp ttl. (None, s))\<rparr>)
        defaultConfig test_handler (test_clock 0)
        NewRecorder (test_request ''POST'' ''/api/payment'' amount_100) () 0)
     = res_w (Middleware timing_out_store defaultConfig test_handler (test_clock 0)
        NewRecorder (test_request ''POST'' ''/api/payment'' amount_100) () 0)"
proof -
  let ?r = "test_request ''POST'' ''/api/payment'' amount_100"
  let ?fk = "test_fullKey amount_100"
  have m: "isIdempotentMethod (Method ?r)"
    by (simp add: isIdempotentMethod_def test_request_def)
  have k': "header_Get (ReqHeader ?r) (HeaderName defaultConfig) = ''test-123''"
    by (simp add: test_request_def defaultConfig_def DefaultHeaderName_def header_Get_def
        header_Values_def)
  have k: "header_Get (ReqHeader ?r) (HeaderName defaultConfig) \<noteq> []"
    by (simp add: k')
  have kf: "KeyFunc defaultConfig ?r (header_Get (ReqHeader ?r) (HeaderName defaultConfig))
            = (Inr ?fk, ?r)"
    by (simp add: k') (simp add: test_request_def defaultConfig_def defaultKeyFunc_def
        io_ReadAll_def test_fullKey_def)
  have lk: "store_Lock timing_out_store () (tLock (test_clock 0)) ?fk = (Inr (\<lambda>s. s), ())"
    by (simp add: timing_out_store_def)
  have ss: "store_Set timing_out_store () (tSet (test_clock 0)) ?fk
        (Some (captured test_handler NewRecorder ?r 0 (tNow (test_clock 0)))) (TTL defaultConfig)
        = (Some (ErrOther ''i/o timeout''), ())"
    by (simp add: timing_out_store_def)
  note T = Middleware_unlocks_once [where store = timing_out_store and config = defaultConfig
      and nxt = test_handler and clk = "test_clock 0" and w = NewRecorder and r = ?r
      and st = "()" and hs = 0, OF m k kf lk]
  from T have
    c: "count_list (res_calls (Middleware timing_out_store defaultConfig test_handler (test_clock 0)
          NewRecorder ?r () 0)) CallUnlock = 1"
       "last (res_calls (Middleware timing_out_store defaultConfig test_handler (test_clock 0)
          NewRecorder ?r () 0)) = CallUnlock"
       "\<forall>set'. res_w (Middleware (timing_out_store\<lparr>store_Set := set'\<rparr>) defaultConfig test_handler
          (test_clock 0) NewRecorder ?r () 0)
        = res_w (Middleware timing_out_store defaultConfig test_handler (test_clock 0)
          NewRecorder ?r () 0)"
    by blast+
  show ?thesis
    using m lk ss c(1) c(2) c(3) [rule_format, of "\<lambda>s now key resp ttl. (None, s)"]
    by simp
qed

subsection \<open>A handler that panics\<close>

text \<open>
  C5. After a successful \<^verbatim>\<open>Lock\<close> the closure is to be called exactly once on every path
  out of the middleware. The middleware calls it as a plain statement after the handler and
  \<^verbatim>\<open>store.Set\<close>, without \<^verbatim>\<open>defer\<close>, so the path on which the handler panics skips it. With
  a handler that aborts, the request of the tests on a new in-process store leaves the
  middleware by the panic after the calls of the key function, \<^verbatim>\<open>Lock\<close>, \<^verbatim>\<open>Get\<close> and the
  handler; the closure is not called and the mutex of the fingerprint stays held. The same
  request sent again, to a handler that returns, is then answered 409 and does not reach the
  handler.
\<close>

theorem Middleware_panic_skips_unlock:
  "snd (Middleware_unwind MemoryStore_impl defaultConfig aborting_handler (test_clock 0)
          NewRecorder (test_request ''POST'' ''/api/payment'' amount_100) NewMemoryStore 0)
     = Some ''net/http: abort Handler''
   \<and> res_calls (fst (Middleware_unwind MemoryStore_impl defaultConfig aborting_handler
          (test_clock 0) NewRecorder (test_request ''POST'' ''/api/payment'' amount_100)
          NewMemoryStore 0))
     = [CallKeyFunc, CallLock (test_fullKey amount_100), CallGet (test_fullKey amount_100), CallNext]
   \<and> count_list (res_calls (fst (Middleware_unwind MemoryStore_impl defaultConfig aborting_handler
          (test_clock 0) NewRecorder (test_request ''POST'' ''/api/payment'' amount_100)
          NewMemoryStore 0))) CallUnlock = 0
   \<and> locked (mutex_of (res_store (fst (Middleware_unwind MemoryStore_impl defaultConfig
          aborting_handler (test_clock 0) NewRecorder
          (test_request ''POST'' ''/api/payment'' amount_100) NewMemoryStore 0)))
          (test_fullKey amount_100))
   \<and> resp_status (res_w (Middleware MemoryStore_impl defaultConfig test_handler (test_clock 10)
          NewRecorder (test_request ''POST'' ''/api/payment'' amount_100)
          (res_store (fst (Middleware_unwind MemoryStore_impl defaultConfig aborting_handler
             (test_clock 0) NewRecorder (test_request ''POST'' ''/api/payment'' amount_100)
             NewMemoryStore 0)))
          (res_handler (fst (Middleware_unwind MemoryStore_impl defaultConfig aborting_handler
             (test_clock 0) NewRecorder (test_request ''POST'' ''/api/payment'' amount_100)
             NewMemoryStore 0))))) = 409
   \<and> res_calls (Middleware MemoryStore_impl defaultConfig test_handler (test_clock 10)
          NewRecorder (test_request ''POST'' ''/api/payment'' amount_100)
          (res_store (fst (Middleware_unwind MemoryStore_impl defaultConfig aborting_handler
             (test_clock 0) NewRecorder (test_request ''POST'' ''/api/payment'' amount_100)
             NewMemoryStore 0)))
          (res_handler (fst (Middleware_unwind MemoryStore_impl defaultConfig aborting_handler
             (test_clock 0) NewRecorder (test_request ''POST'' ''/api/payment'' amount_100)
             NewMemoryStore 0))))
     = [CallKeyFunc, CallLock (test_fullKey amount_100)]"
proof -
  let ?r = "test_request ''POST'' ''/api/payment'' amount_100"
  let ?fk = "test_fullKey amount_100"
  let ?s1 = "snd (MemoryStore_Lock NewMemoryStore ?fk)"
  have m: "isIdempotentMethod (Method ?r)"
    by (simp add: isIdempotentMethod_def test_request_def)
  have k': "header_Get (ReqHeader ?r) (HeaderName defaultConfig) = ''test-123''"
    by (simp add: test_request_def defaultConfig_def DefaultHeaderName_def header_Get_def
        header_Values_def)
  have k: "header_Get (ReqHeader ?r) (HeaderName defaultConfig) \<noteq> []"
    by (simp add: k')
  have kf: "KeyFunc defaultConfig ?r (header_Get (ReqHeader ?r) (HeaderName defaultConfig))
            = (Inr ?fk, ?r)"
    by (simp add: k') (simp add: test_request_def defaultConfig_def defaultKeyFunc_def
        io_ReadAll_def test_fullKey_def)
  have lk: "store_Lock MemoryStore_impl NewMemoryStore (tLock (test_clock 0)) ?fk
            = (Inr (MemoryStore_unlock ?fk), ?s1)"
    by (simp add: MemoryStore_impl_def MemoryStore_Lock_def NewMemoryStore_def mutex_of_def Let_def)
  have g: "store_Get MemoryStore_impl ?s1 (tGet (test_clock 0)) ?fk = (Inl ErrNotFound, ?s1)"
    by (simp add: MemoryStore_impl_def MemoryStore_Get_def MemoryStore_Lock_def NewMemoryStore_def
        mutex_of_def Let_def)
  have n: "\<And>cached. Inl ErrNotFound \<noteq> Inr (Some cached)" by simp
  have p: "aborting_handler 0 ?r = ([], 1, Some ''net/http: abort Handler'')"
    by (simp add: aborting_handler_def)
  have e: "Middleware_unwind MemoryStore_impl defaultConfig aborting_handler (test_clock 0)
             NewRecorder ?r NewMemoryStore 0
           = (\<lparr>res_w = foldl rw_do NewRecorder [], res_store = ?s1, res_handler = 1,
               res_calls = [CallKeyFunc, CallLock ?fk, CallGet ?fk, CallNext]\<rparr>,
              Some ''net/http: abort Handler'')"
    by (rule Middleware_unwind_panic [where nxt = aborting_handler and hs = 0 and w = NewRecorder,
          OF m k kf lk g n p])
  have held: "locked (mutex_of ?s1 ?fk)"
    by (simp add: MemoryStore_Lock_def NewMemoryStore_def mutex_of_def Let_def)
  have lk2: "store_Lock MemoryStore_impl ?s1 (tLock (test_clock 10)) ?fk
             = (Inl ErrRequestInProgress, snd (MemoryStore_Lock ?s1 ?fk))"
    using held by (simp add: MemoryStore_impl_def MemoryStore_Lock_def Let_def)
  note c = Middleware_conflict [where nxt = test_handler and w = NewRecorder and hs = 1,
      OF m k kf lk2]
  have nw: "\<not> wroteHeader NewRecorder" by (simp add: NewRecorder_def)
  let ?run = "Middleware_unwind MemoryStore_impl defaultConfig aborting_handler (test_clock 0)
                NewRecorder ?r NewMemoryStore 0"
  let ?retry = "Middleware MemoryStore_impl defaultConfig test_handler (test_clock 10) NewRecorder ?r
                  (res_store (fst ?run)) (res_handler (fst ?run))"
  have a: "snd ?run = Some ''net/http: abort Handler''"
    "res_calls (fst ?run) = [CallKeyFunc, CallLock ?fk, CallGet ?fk, CallNext]"
    "count_list (res_calls (fst ?run)) CallUnlock = 0"
    "locked (mutex_of (res_store (fst ?run)) ?fk)"
    using held by (simp_all add: e)
  have st: "res_store (fst ?run) = ?s1" "res_handler (fst ?run) = 1"
    by (simp_all add: e)
  have b: "?retry = \<lparr>res_w = http_Error NewRecorder ''Request already in progress'' 409,
            res_store = snd (MemoryStore_Lock ?s1 ?fk), res_handler = 1,
            res_calls = [CallKeyFunc, CallLock ?fk]\<rparr>"
    unfolding st by (rule c)
  have d: "resp_status (res_w ?retry) = 409" "res_calls ?retry = [CallKeyFunc, CallLock ?fk]"
    unfolding b by (simp_all add: resp_status_http_Error [OF nw])
  show ?thesis
    using a d by blast
qed

section \<open>A failing lookup\<close>

text \<open>
  C9. On the idempotency path, when \<^verbatim>\<open>Lock\<close> succeeded and \<^verbatim>\<open>store.Get\<close> returns an error,
  whichever it is, the middleware does what it does on a miss: it calls the wrapped handler
  once, so that the response and the handler's state are those of calling the handler
  directly on the response writer; it then calls \<^verbatim>\<open>store.Set\<close> under the fingerprint with the
  captured response (the last status given to \<^verbatim>\<open>WriteHeader\<close>, or 200, the header map, all
  bytes written, the timestamp) and the configured TTL, and last the closure.
\<close>

theorem Middleware_Get_error_is_miss:
  fixes store :: "'s Store" and nxt :: "'h Handler" and config clk w r st hs
  defines "R \<equiv> Middleware store config nxt clk w r st hs"
  assumes m: "isIdempotentMethod (Method r)"
    and k: "header_Get (ReqHeader r) (HeaderName config) \<noteq> []"
    and kf: "KeyFunc config r (header_Get (ReqHeader r) (HeaderName config)) = (Inr fullKey, r')"
    and lk: "store_Lock store st (tLock clk) fullKey = (Inr unlock, st1)"
    and g: "store_Get store st1 (tGet clk) fullKey = (Inl err, st2)"
  shows "res_calls R = [CallKeyFunc, CallLock fullKey, CallGet fullKey, CallNext,
                        CallSet fullKey (captured nxt w r' hs (tNow clk)) (TTL config), CallUnlock]
       \<and> (res_w R, res_handler R) = ServeHTTP nxt w r' hs
       \<and> res_store R = unlock (snd (store_Set store st2 (tSet clk) fullKey
                                      (Some (captured nxt w r' hs (tNow clk))) (TTL config)))
       \<and> StatusCode (captured nxt w r' hs (tNow clk)) = last_status 200 (fst (nxt hs r'))
       \<and> Headers (captured nxt w r' hs (tNow clk)) = rw_header (res_w R)
       \<and> Body (captured nxt w r' hs (tNow clk)) = bytes_written (fst (nxt hs r'))
       \<and> Timestamp (captured nxt w r' hs (tNow clk)) = tNow clk"
proof -
  have n: "\<And>cached. Inl err \<noteq> Inr (Some cached)" by simp
  have e: "R = \<lparr>res_w = fst (ServeHTTP nxt w r' hs),
            res_store = unlock (snd (store_Set store st2 (tSet clk) fullKey
                                       (Some (captured nxt w r' hs (tNow clk))) (TTL config))),
            res_handler = snd (ServeHTTP nxt w r' hs),
            res_calls = [CallKeyFunc, CallLock fullKey, CallGet fullKey, CallNext,
                         CallSet fullKey (captured nxt w r' hs (tNow clk)) (TTL config), CallUnlock]\<rparr>"
    unfolding R_def by (rule Middleware_miss [OF m k kf lk g n])
  show ?thesis by (simp add: e captured_fields)
qed

theorem Middleware_Get_error_is_miss_witness:
  "isIdempotentMethod (Method (test_request ''POST'' ''/api/payment'' amount_100))
   \<and> store_Lock timing_out_store () (tLock (test_clock 0)) (test_fullKey amount_100) = (Inr (\<lambda>s. s), ())
   \<and> store_Get timing_out_store () (tGet (test_clock 0)) (test_fullKey amount_100)
       = (Inl (ErrOther ''i/o timeout''), ())
   \<and> resp_status (res_w (Middleware timing_out_store defaultConfig test_handler (test_clock 0)
        NewRecorder (test_request ''POST'' ''/api/payment'' amount_100) () 0)) = 200
   \<and> resp_body (res_w (Middleware timing_out_store defaultConfig test_handler (test_clock 0)
        NewRecorder (test_request ''POST'' ''/api/payment'' amount_100) () 0)) = Body test_response
   \<and> res_handler (Middleware timing_out_store defaultConfig test_handler (test_clock 0)
        NewRecorder (test_request ''POST'' ''/api/payment'' amount_100) () 0) = 1
   \<and> res_calls (Middleware timing_out_store defaultConfig test_handler (test_clock 0)
        NewRecorder (test_request ''POST'' ''/api/payment'' amount_100) () 0)
      = [CallKeyFunc, CallLock (test_fullKey amount_100), CallGet (test_fullKey amount_100), CallNext,
         CallSet (test_fullKey amount_100) (test_response\<lparr>Headers := [], Timestamp := 2\<rparr>) DefaultTTL,
         CallUnlock]"
proof -
  let ?r = "test_request ''POST'' ''/api/payment'' amount_100"
  let ?fk = "test_fullKey amount_100"
  have m: "isIdempotentMethod (Method ?r)"
    by (simp add: isIdempotentMethod_def test_request_def)
  have k': "header_Get (ReqHeader ?r) (HeaderName defaultConfig) = ''test-123''"
    by (simp add: test_request_def defaultConfig_def DefaultHeaderName_def header_Get_def
        header_Values_def)
  have k: "header_Get (ReqHeader ?r) (HeaderName defaultConfig) \<noteq> []"
    by (simp add: k')
  have kf: "KeyFunc defaultConfig ?r (header_Get (ReqHeader ?r) (HeaderName defaultConfig))
            = (Inr ?fk, ?r)"
    by (simp add: k') (simp add: test_request_def defaultConfig_def defaultKeyFunc_def
        io_ReadAll_def test_fullKey_def)
  have lk: "store_Lock timing_out_store () (tLock (test_clock 0)) ?fk = (Inr (\<lambda>s. s), ())"
    by (simp add: timing_out_store_def)
  have g: "store_Get timing_out_store () (tGet (test_clock 0)) ?fk = (Inl (ErrOther ''i/o timeout''), ())"
    by (simp add: timing_out_store_def)
  have sv: "ServeHTTP test_handler NewRecorder ?r 0
      = (\<lparr>rw_header = [], wroteHeader = True, code = 200, sentHeader = [],
          written = Body test_response\<rparr>, 1)"
    by (simp add: ServeHTTP_def test_handler_def NewRecorder_def rw_WriteHeader_def rw_Write_def
        test_response_def)
  have cp: "captured test_handler NewRecorder ?r 0 (tNow (test_clock 0))
      = test_response\<lparr>Headers := [], Timestamp := 2\<rparr>"
    by (simp add: captured_def ServeHTTP_recorder_def test_handler_def NewRecorder_def
        rec_WriteHeader_def rec_Write_def rw_WriteHeader_def rw_Write_def test_response_def
        test_clock_def StatusOK_def)
  have ttl: "TTL defaultConfig = DefaultTTL" by (simp add: defaultConfig_def)
  note T = Middleware_Get_error_is_miss [where store = timing_out_store and config = defaultConfig
      and nxt = test_handler and clk = "test_clock 0" and w = NewRecorder and r = ?r
      and st = "()" and hs = 0, OF m k kf lk g]
  from T sv have
    c: "res_w (Middleware timing_out_store defaultConfig test_handler (test_clock 0)
          NewRecorder ?r () 0)
        = \<lparr>rw_header = [], wroteHeader = True, code = 200, sentHeader = [],
           written = Body test_response\<rparr>"
       "res_handler (Middleware timing_out_store defaultConfig test_handler (test_clock 0)
          NewRecorder ?r () 0) = 1"
       "res_calls (Middleware timing_out_store defaultConfig test_handler (test_clock 0)
          NewRecorder ?r () 0)
        = [CallKeyFunc, CallLock ?fk, CallGet ?fk, CallNext,
           CallSet ?fk (captured test_handler NewRecorder ?r 0 (tNow (test_clock 0))) (TTL defaultConfig),
           CallUnlock]"
    by simp_all
  show ?thesis
    using m lk g c by (simp add: cp ttl resp_status_def resp_body_def)
qed

section \<open>Requests over the in-process store\<close>

lemma MemoryStore_first_request:
  fixes nxt :: "'h Handler"
  assumes m: "isIdempotentMethod (Method r)"
    and k: "header_Get (ReqHeader r) (HeaderName config) \<noteq> []"
    and kf: "KeyFunc config r (header_Get (ReqHeader r) (HeaderName config)) = (Inr fk, r')"
    and free: "\<not> locked (mutex_of s fk)"
    and miss: "\<And>c. MemoryStore_Get s (tGet clk) fk \<noteq> Inr (Some c)"
  shows "Middleware MemoryStore_impl config nxt clk w r s hs =
           \<lparr>res_w = fst (ServeHTTP nxt w r' hs),
            res_store = s\<lparr>data := (data s)(fk \<mapsto> \<lparr>response = Some (captured nxt w r' hs (tNow clk)),
                                                   expiresAt = tSet clk + TTL config\<rparr>),
                           locks := (locks s)(fk \<mapsto> (mutex_of s fk)\<lparr>locked := False\<rparr>)\<rparr>,
            res_handler = snd (ServeHTTP nxt w r' hs),
            res_calls = [CallKeyFunc, CallLock fk, CallGet fk, CallNext,
                         CallSet fk (captured nxt w r' hs (tNow clk)) (TTL config), CallUnlock]\<rparr>"
proof -
  let ?s1 = "s\<lparr>locks := (locks s)(fk \<mapsto> (mutex_of s fk)\<lparr>locked := True\<rparr>)\<rparr>"
  have lk: "store_Lock MemoryStore_impl s (tLock clk) fk = (Inr (MemoryStore_unlock fk), ?s1)"
    using free by (simp add: MemoryStore_impl_def MemoryStore_Lock_def Let_def)
  have g: "store_Get MemoryStore_impl ?s1 (tGet clk) fk = (MemoryStore_Get s (tGet clk) fk, ?s1)"
    by (simp add: MemoryStore_impl_def MemoryStore_Get_def)
  have "MemoryStore_unlock fk (snd (store_Set MemoryStore_impl ?s1 (tSet clk) fk
            (Some (captured nxt w r' hs (tNow clk))) (TTL config)))
        = s\<lparr>data := (data s)(fk \<mapsto> \<lparr>response = Some (captured nxt w r' hs (tNow clk)),
                                                   expiresAt = tSet clk + TTL config\<rparr>),
                           locks := (locks s)(fk \<mapsto> (mutex_of s fk)\<lparr>locked := False\<rparr>)\<rparr>"
    by (simp add: MemoryStore_impl_def MemoryStore_Set_def MemoryStore_unlock_def mutex_of_def Let_def)
  with Middleware_miss [OF m k kf lk g miss, of nxt w hs] show ?thesis by simp
qed

lemma MemoryStore_second_request:
  fixes nxt :: "'h Handler"
  assumes m: "isIdempotentMethod (Method r)"
    and k: "header_Get (ReqHeader r) (HeaderName config) \<noteq> []"
    and kf: "KeyFunc config r (header_Get (ReqHeader r) (HeaderName config)) = (Inr fk, r')"
    and free: "\<not> locked (mutex_of s fk)"
    and hit: "data s fk = Some \<lparr>response = Some cached, expiresAt = t\<rparr>"
    and live: "tGet clk \<le> t"
  shows "Middleware MemoryStore_impl config nxt clk w r s hs =
           \<lparr>res_w = writeCachedResponse w cached,
            res_store = s\<lparr>locks := (locks s)(fk \<mapsto> (mutex_of s fk)\<lparr>locked := False\<rparr>)\<rparr>,
            res_handler = hs,
            res_calls = [CallKeyFunc, CallLock fk, CallGet fk, CallUnlock]\<rparr>"
proof -
  let ?s1 = "s\<lparr>locks := (locks s)(fk \<mapsto> (mutex_of s fk)\<lparr>locked := True\<rparr>)\<rparr>"
  have lk: "store_Lock MemoryStore_impl s (tLock clk) fk = (Inr (MemoryStore_unlock fk), ?s1)"
    using free by (simp add: MemoryStore_impl_def MemoryStore_Lock_def Let_def)
  have g: "store_Get MemoryStore_impl ?s1 (tGet clk) fk = (Inr (Some cached), ?s1)"
    using hit live by (simp add: MemoryStore_impl_def MemoryStore_Get_def)
  have "MemoryStore_unlock fk ?s1 = s\<lparr>locks := (locks s)(fk \<mapsto> (mutex_of s fk)\<lparr>locked := False\<rparr>)\<rparr>"
    by (simp add: MemoryStore_unlock_def mutex_of_def Let_def)
  with Middleware_hit [OF m k kf lk g, of nxt w hs] show ?thesis by simp
qed


lemma MemoryStore_other_key:
  fixes nxt :: "'h Handler"
  assumes m: "isIdempotentMethod (Method r)"
    and k: "header_Get (ReqHeader r) (HeaderName config) \<noteq> []"
    and kf: "KeyFunc config r (header_Get (ReqHeader r) (HeaderName config)) = (Inr fk, r')"
    and free: "\<not> locked (mutex_of s fk)"
    and miss: "\<forall>c. MemoryStore_Get s (tGet clk) fk \<noteq> Inr (Some c)"
    and other: "fk' \<noteq> fk"
  shows "mutex_of (res_store (Middleware MemoryStore_impl config nxt clk w r s hs)) fk' = mutex_of s fk'"
    and "MemoryStore_Get (res_store (Middleware MemoryStore_impl config nxt clk w r s hs)) t fk'
           = MemoryStore_Get s t fk'"
proof -
  have miss': "\<And>c. MemoryStore_Get s (tGet clk) fk \<noteq> Inr (Some c)"
    using miss by blast
  note e = MemoryStore_first_request [OF m k kf free miss', of nxt w hs]
  show "mutex_of (res_store (Middleware MemoryStore_impl config nxt clk w r s hs)) fk' = mutex_of s fk'"
    using other by (simp add: e mutex_of_def)
  show "MemoryStore_Get (res_store (Middleware MemoryStore_impl config nxt clk w r s hs)) t fk'
           = MemoryStore_Get s t fk'"
    using other by (simp add: e MemoryStore_Get_def)
qed


section \<open>What the recorder captures\<close>

lemma untouched_header_ops:
  "list_all is_header_op acts \<Longrightarrow> untouched rc \<Longrightarrow> untouched (foldl rec_do rc acts)"
proof (induction acts arbitrary: rc)
  case Nil
  then show ?case by simp
next
  case (Cons a acts)
  have "untouched (rec_do rc a)"
    using Cons.prems by (cases a) (simp_all add: untouched_def)
  with Cons show ?case by simp
qed

lemma in_step_writes:
  "list_all is_Write acts \<Longrightarrow> in_step rc \<Longrightarrow> in_step (foldl rec_do rc acts)"
proof (induction acts arbitrary: rc)
  case Nil
  then show ?case by simp
next
  case (Cons a acts)
  have "in_step (rec_do rc a)"
    using Cons.prems by (cases a) (simp_all add: in_step_def rec_Write_def rw_Write_def Let_def)
  with Cons show ?case by simp
qed

lemma untouched_first_write:
  "untouched rc \<Longrightarrow> in_step (rec_do rc (WriteHeader c))"
  "untouched rc \<Longrightarrow> in_step (rec_do rc (Write b))"
  by (simp_all add: untouched_def in_step_def rec_WriteHeader_def rec_Write_def rw_WriteHeader_def
      rw_Write_def Let_def)

lemma recorded_is_sent:
  assumes "untouched rc \<or> in_step rc"
  shows "statusCode rc = resp_status (embedded rc)"
    and "body rc = resp_body (embedded rc)"
    and "rw_header (embedded rc) = resp_header (embedded rc)"
  using assms by (auto simp: untouched_def in_step_def resp_status_def resp_body_def resp_header_def)

lemma orderly_recorder:
  assumes o: "orderly acts" and u: "untouched rc"
  shows "untouched (foldl rec_do rc acts) \<or> in_step (foldl rec_do rc acts)"
proof -
  let ?hs = "takeWhile is_header_op acts"
  let ?rest = "dropWhile is_header_op acts"
  have split: "foldl rec_do rc acts = foldl rec_do (foldl rec_do rc ?hs) ?rest"
    by (metis foldl_append takeWhile_dropWhile_id)
  have u1: "untouched (foldl rec_do rc ?hs)"
    by (rule untouched_header_ops [OF _ u]) (simp add: list_all_iff, metis set_takeWhileD)
  show ?thesis
  proof (cases ?rest)
    case Nil
    with split u1 show ?thesis by simp
  next
    case (Cons a ws)
    have na: "\<not> is_header_op a"
      using Cons by (metis hd_dropWhile list.distinct(1) list.sel(1))
    show ?thesis
    proof (cases a)
      case (WriteHeader c)
      with o Cons have w: "list_all is_Write ws" by (simp add: orderly_def)
      have "in_step (foldl rec_do (rec_do (foldl rec_do rc ?hs) (WriteHeader c)) ws)"
        by (rule in_step_writes [OF w untouched_first_write(1) [OF u1]])
      with split Cons WriteHeader show ?thesis by simp
    next
      case (Write b)
      with o Cons have w: "list_all is_Write ws" by (simp add: orderly_def)
      have "in_step (foldl rec_do (rec_do (foldl rec_do rc ?hs) (Write b)) ws)"
        by (rule in_step_writes [OF w untouched_first_write(2) [OF u1]])
      with split Cons Write show ?thesis by simp
    qed (use na in simp_all)
  qed
qed

lemma captured_is_sent:
  fixes nxt :: "'h Handler"
  assumes "orderly (fst (nxt hs r))" and "\<not> wroteHeader w" and "written w = []"
  shows "StatusCode (captured nxt w r hs now) = resp_status (fst (ServeHTTP nxt w r hs))"
    and "Body (captured nxt w r hs now) = resp_body (fst (ServeHTTP nxt w r hs))"
    and "Headers (captured nxt w r hs now) = resp_header (fst (ServeHTTP nxt w r hs))"
proof -
  obtain acts hs' where n: "nxt hs r = (acts, hs')" by (cases "nxt hs r")
  let ?rc = "\<lparr>embedded = w, statusCode = StatusOK, body = []\<rparr>"
  have u: "untouched ?rc" using assms(2,3) by (simp add: untouched_def StatusOK_def)
  have o: "orderly acts" using assms(1) n by simp
  note f = recorded_is_sent [OF orderly_recorder [OF o u]]
  have e: "embedded (foldl rec_do ?rc acts) = foldl rw_do w acts"
    by (simp add: embedded_foldl_rec_do)
  show "StatusCode (captured nxt w r hs now) = resp_status (fst (ServeHTTP nxt w r hs))"
    using f(1) e by (simp add: captured_def ServeHTTP_recorder_def ServeHTTP_def n)
  show "Body (captured nxt w r hs now) = resp_body (fst (ServeHTTP nxt w r hs))"
    using f(2) e by (simp add: captured_def ServeHTTP_recorder_def ServeHTTP_def n)
  show "Headers (captured nxt w r hs now) = resp_header (fst (ServeHTTP nxt w r hs))"
    using f(3) e by (simp add: captured_def ServeHTTP_recorder_def ServeHTTP_def n)
qed


section \<open>Two identical requests in sequence\<close>

lemma MemoryStore_two_requests:
  fixes nxt :: "'h Handler" and config clk1 clk2 r1 r2 s hs w1 w2
  defines "R1 \<equiv> Middleware MemoryStore_impl config nxt clk1 w1 r1 s hs"
  defines "R2 \<equiv> Middleware MemoryStore_impl config nxt clk2 w2 r2 (res_store R1) (res_handler R1)"
  assumes m1: "isIdempotentMethod (Method r1)"
    and k1: "header_Get (ReqHeader r1) (HeaderName config) \<noteq> []"
    and kf1: "KeyFunc config r1 (header_Get (ReqHeader r1) (HeaderName config)) = (Inr fk, r1')"
    and m2: "isIdempotentMethod (Method r2)"
    and k2: "header_Get (ReqHeader r2) (HeaderName config) \<noteq> []"
    and kf2: "KeyFunc config r2 (header_Get (ReqHeader r2) (HeaderName config)) = (Inr fk, r2')"
    and free: "\<not> locked (mutex_of s fk)"
    and miss: "\<forall>c. MemoryStore_Get s (tGet clk1) fk \<noteq> Inr (Some c)"
    and live: "tGet clk2 \<le> tSet clk1 + TTL config"
  shows "res_w R1 = fst (ServeHTTP nxt w1 r1' hs)"
    and "res_handler R1 = snd (ServeHTTP nxt w1 r1' hs)"
    and "res_calls R1 = [CallKeyFunc, CallLock fk, CallGet fk, CallNext,
                         CallSet fk (captured nxt w1 r1' hs (tNow clk1)) (TTL config), CallUnlock]"
    and "res_w R2 = writeCachedResponse w2 (captured nxt w1 r1' hs (tNow clk1))"
    and "res_handler R2 = snd (ServeHTTP nxt w1 r1' hs)"
    and "res_calls R2 = [CallKeyFunc, CallLock fk, CallGet fk, CallUnlock]"
proof -
  let ?cap = "captured nxt w1 r1' hs (tNow clk1)"
  let ?s' = "s\<lparr>data := (data s)(fk \<mapsto> \<lparr>response = Some ?cap, expiresAt = tSet clk1 + TTL config\<rparr>),
               locks := (locks s)(fk \<mapsto> (mutex_of s fk)\<lparr>locked := False\<rparr>)\<rparr>"
  have miss': "\<And>c. MemoryStore_Get s (tGet clk1) fk \<noteq> Inr (Some c)"
    using miss by blast
  have e1: "R1 = \<lparr>res_w = fst (ServeHTTP nxt w1 r1' hs), res_store = ?s',
            res_handler = snd (ServeHTTP nxt w1 r1' hs),
            res_calls = [CallKeyFunc, CallLock fk, CallGet fk, CallNext,
                         CallSet fk ?cap (TTL config), CallUnlock]\<rparr>"
    unfolding R1_def by (rule MemoryStore_first_request [OF m1 k1 kf1 free miss'])
  have free': "\<not> locked (mutex_of ?s' fk)"
    by (simp add: mutex_of_def)
  have hit: "data ?s' fk = Some \<lparr>response = Some ?cap, expiresAt = tSet clk1 + TTL config\<rparr>"
    by simp
  have e2: "R2 = \<lparr>res_w = writeCachedResponse w2 ?cap,
            res_store = ?s'\<lparr>locks := (locks ?s')(fk \<mapsto> (mutex_of ?s' fk)\<lparr>locked := False\<rparr>)\<rparr>,
            res_handler = snd (ServeHTTP nxt w1 r1' hs),
            res_calls = [CallKeyFunc, CallLock fk, CallGet fk, CallUnlock]\<rparr>"
    unfolding R2_def e1 Result.simps
    by (rule MemoryStore_second_request [OF m2 k2 kf2 free' hit live])
  show "res_w R1 = fst (ServeHTTP nxt w1 r1' hs)" by (simp add: e1)
  show "res_handler R1 = snd (ServeHTTP nxt w1 r1' hs)" by (simp add: e1)
  show "res_calls R1 = [CallKeyFunc, CallLock fk, CallGet fk, CallNext,
                         CallSet fk ?cap (TTL config), CallUnlock]" by (simp add: e1)
  show "res_w R2 = writeCachedResponse w2 ?cap" by (simp add: e2)
  show "res_handler R2 = snd (ServeHTTP nxt w1 r1' hs)" by (simp add: e2)
  show "res_calls R2 = [CallKeyFunc, CallLock fk, CallGet fk, CallUnlock]" by (simp add: e2)
qed

text \<open>
  C1, as amended. Two requests with the same non-empty idempotency key, the same method
  (POST, PATCH or PUT), path and readable body go one after the other through the middleware
  with the default key function and the in-process store, each with a response writer on
  which nothing was set or written. When the first arrives no lock is held on their
  fingerprint and the store has no live response for it; the second looks the fingerprint up
  no later than the expiry of what the first stored (its \<^verbatim>\<open>Set\<close> instant plus the TTL); the
  handler's run for the first request is orderly. Then the second request receives the status
  and the body the first received, and under every header name the values the first
  received, except \<^verbatim>\<open>X-Idempotency-Cached\<close>, which for the second is \<^verbatim>\<open>true\<close>; and the
  handler is called exactly once, for the first request.
\<close>

theorem Middleware_sequential_replay:
  fixes nxt :: "'h Handler" and config clk1 clk2 r1 r2 s hs
  defines "R1 \<equiv> Middleware MemoryStore_impl config nxt clk1 NewRecorder r1 s hs"
  defines "R2 \<equiv> Middleware MemoryStore_impl config nxt clk2 NewRecorder r2
                   (res_store R1) (res_handler R1)"
  assumes d: "KeyFunc config = defaultKeyFunc"
    and m: "isIdempotentMethod (Method r1)"
    and k: "header_Get (ReqHeader r1) (HeaderName config) \<noteq> []"
    and same: "header_Get (ReqHeader r2) (HeaderName config)
                 = header_Get (ReqHeader r1) (HeaderName config)"
              "Method r2 = Method r1" "Path r2 = Path r1" "ReqBody r2 = ReqBody r1"
    and kf: "defaultKeyFunc r1 (header_Get (ReqHeader r1) (HeaderName config)) = (Inr fk, r1')"
    and free: "\<not> locked (mutex_of s fk)"
    and miss: "\<forall>c. MemoryStore_Get s (tGet clk1) fk \<noteq> Inr (Some c)"
    and live: "tGet clk2 \<le> tSet clk1 + TTL config"
    and ord: "orderly (fst (nxt hs r1'))"
  shows "resp_status (res_w R2) = resp_status (res_w R1)
       \<and> resp_body (res_w R2) = resp_body (res_w R1)
       \<and> (\<forall>name. header_Values (resp_header (res_w R2)) name
             = (if name = ''X-Idempotency-Cached'' then [''true'']
                else header_Values (resp_header (res_w R1)) name))
       \<and> count_list (res_calls R1 @ res_calls R2) CallNext = 1
       \<and> res_handler R1 = snd (nxt hs r1')
       \<and> res_handler R2 = res_handler R1"
proof -
  let ?key = "header_Get (ReqHeader r1) (HeaderName config)"
  let ?cap = "captured nxt NewRecorder r1' hs (tNow clk1)"
  have fresh: "\<not> wroteHeader NewRecorder" "written NewRecorder = []" "rw_header NewRecorder = []"
    by (simp_all add: NewRecorder_def)
  have kf1: "KeyFunc config r1 ?key = (Inr fk, r1')"
    using d kf by simp
  have "fst (defaultKeyFunc r2 ?key) = fst (defaultKeyFunc r1 ?key)"
    using same(2-4) by (simp add: defaultKeyFunc_def io_ReadAll_def Let_def split: option.splits)
  then obtain r2' where kf2: "KeyFunc config r2 (header_Get (ReqHeader r2) (HeaderName config)) = (Inr fk, r2')"
    using d kf same(1) by (cases "defaultKeyFunc r2 ?key") simp
  have m2: "isIdempotentMethod (Method r2)" using m same(2) by simp
  have k2: "header_Get (ReqHeader r2) (HeaderName config) \<noteq> []" using k same(1) by simp
  have two:
    "res_w R1 = fst (ServeHTTP nxt NewRecorder r1' hs)"
    "res_handler R1 = snd (ServeHTTP nxt NewRecorder r1' hs)"
    "res_calls R1 = [CallKeyFunc, CallLock fk, CallGet fk, CallNext,
                     CallSet fk ?cap (TTL config), CallUnlock]"
    "res_w R2 = writeCachedResponse NewRecorder ?cap"
    "res_handler R2 = snd (ServeHTTP nxt NewRecorder r1' hs)"
    "res_calls R2 = [CallKeyFunc, CallLock fk, CallGet fk, CallUnlock]"
    unfolding R1_def R2_def
    by (rule MemoryStore_two_requests [OF m k kf1 m2 k2 kf2 free miss live])+
  note cap = captured_is_sent [where nxt = nxt and hs = hs and r = r1' and w = NewRecorder
      and now = "tNow clk1", OF ord fresh(1) fresh(2)]
  note rep = writeCachedResponse_received [OF fresh(1), of ?cap]
  have v: "header_Values [] name = []" for name
    by (simp add: header_Values_def)
  have h: "snd (ServeHTTP nxt NewRecorder r1' hs) = snd (nxt hs r1')"
    by (simp add: ServeHTTP_def split: prod.splits)
  show ?thesis
    by (simp add: two rep cap fresh v h)
qed

theorem Middleware_sequential_replay_witness:
  "isIdempotentMethod (Method (test_request ''POST'' ''/api/payment'' amount_100))
   \<and> \<not> locked (mutex_of NewMemoryStore (test_fullKey amount_100))
   \<and> tGet (test_clock 10) \<le> tSet (test_clock 0) + TTL defaultConfig
   \<and> orderly (fst (test_handler 0 (test_request ''POST'' ''/api/payment'' amount_100)))
   \<and> resp_status (res_w (Middleware MemoryStore_impl defaultConfig test_handler (test_clock 10)
         NewRecorder (test_request ''POST'' ''/api/payment'' amount_100)
         (res_store (Middleware MemoryStore_impl defaultConfig test_handler (test_clock 0)
            NewRecorder (test_request ''POST'' ''/api/payment'' amount_100) NewMemoryStore 0))
         (res_handler (Middleware MemoryStore_impl defaultConfig test_handler (test_clock 0)
            NewRecorder (test_request ''POST'' ''/api/payment'' amount_100) NewMemoryStore 0))))
     = resp_status (res_w (Middleware MemoryStore_impl defaultConfig test_handler (test_clock 0)
         NewRecorder (test_request ''POST'' ''/api/payment'' amount_100) NewMemoryStore 0))
   \<and> resp_body (res_w (Middleware MemoryStore_impl defaultConfig test_handler (test_clock 10)
         NewRecorder (test_request ''POST'' ''/api/payment'' amount_100)
         (res_store (Middleware MemoryStore_impl defaultConfig test_handler (test_clock 0)
            NewRecorder (test_request ''POST'' ''/api/payment'' amount_100) NewMemoryStore 0))
         (res_handler (Middleware MemoryStore_impl defaultConfig test_handler (test_clock 0)
            NewRecorder (test_request ''POST'' ''/api/payment'' amount_100) NewMemoryStore 0))))
     = resp_body (res_w (Middleware MemoryStore_impl defaultConfig test_handler (test_clock 0)
         NewRecorder (test_request ''POST'' ''/api/payment'' amount_100) NewMemoryStore 0))
   \<and> res_handler (Middleware MemoryStore_impl defaultConfig test_handler (test_clock 10)
         NewRecorder (test_request ''POST'' ''/api/payment'' amount_100)
         (res_store (Middleware MemoryStore_impl defaultConfig test_handler (test_clock 0)
            NewRecorder (test_request ''POST'' ''/api/payment'' amount_100) NewMemoryStore 0))
         (res_handler (Middleware MemoryStore_impl defaultConfig test_handler (test_clock 0)
            NewRecorder (test_request ''POST'' ''/api/payment'' amount_100) NewMemoryStore 0))) = 1"
proof -
  let ?r = "test_request ''POST'' ''/api/payment'' amount_100"
  let ?fk = "test_fullKey amount_100"
  have d: "KeyFunc defaultConfig = defaultKeyFunc" by (simp add: defaultConfig_def)
  have m: "isIdempotentMethod (Method ?r)"
    by (simp add: isIdempotentMethod_def test_request_def)
  have k': "header_Get (ReqHeader ?r) (HeaderName defaultConfig) = ''test-123''"
    by (simp add: test_request_def defaultConfig_def DefaultHeaderName_def header_Get_def
        header_Values_def)
  have k: "header_Get (ReqHeader ?r) (HeaderName defaultConfig) \<noteq> []"
    by (simp add: k')
  have kf: "defaultKeyFunc ?r (header_Get (ReqHeader ?r) (HeaderName defaultConfig)) = (Inr ?fk, ?r)"
    by (simp add: k') (simp add: test_request_def defaultKeyFunc_def io_ReadAll_def test_fullKey_def)
  have free: "\<not> locked (mutex_of NewMemoryStore ?fk)"
    by (simp add: mutex_of_def NewMemoryStore_def)
  have miss: "\<forall>c. MemoryStore_Get NewMemoryStore (tGet (test_clock 0)) ?fk \<noteq> Inr (Some c)"
    by (simp add: MemoryStore_Get_def NewMemoryStore_def)
  have live: "tGet (test_clock 10) \<le> tSet (test_clock 0) + TTL defaultConfig"
    by (simp add: test_clock_def defaultConfig_def DefaultTTL_def)
  have ord: "orderly (fst (test_handler 0 ?r))"
    by (simp add: orderly_def test_handler_def)
  have one: "snd (test_handler 0 ?r) = 1"
    by (simp add: test_handler_def)
  note T = Middleware_sequential_replay [where config = defaultConfig and nxt = test_handler
      and ?clk1.0 = "test_clock 0" and ?clk2.0 = "test_clock 10" and ?r1.0 = ?r and ?r2.0 = ?r
      and s = NewMemoryStore and hs = 0, OF d m k refl refl refl refl kf free miss live ord]
  let ?R1 = "Middleware MemoryStore_impl defaultConfig test_handler (test_clock 0) NewRecorder ?r
               NewMemoryStore 0"
  let ?R2 = "Middleware MemoryStore_impl defaultConfig test_handler (test_clock 10) NewRecorder ?r
               (res_store ?R1) (res_handler ?R1)"
  from T have c: "resp_status (res_w ?R2) = resp_status (res_w ?R1)"
    "resp_body (res_w ?R2) = resp_body (res_w ?R1)"
    "res_handler ?R1 = snd (test_handler 0 ?r)"
    "res_handler ?R2 = res_handler ?R1"
    by blast+
  have h: "res_handler ?R2 = 1" using c(3) c(4) one by simp
  show ?thesis
    using m free live ord c(1) c(2) h by blast
qed

text \<open>
  C1 as stated does not hold: with the handler and the request of
  \<^verbatim>\<open>TestMiddleware_CachesResponse\<close> on a new store, the first response has no
  \<^verbatim>\<open>X-Idempotency-Cached\<close> header and the second has it with the value \<^verbatim>\<open>true\<close>, so the
  headers of the two responses differ.
\<close>

theorem Middleware_sequential_headers_differ:
  "header_Values (resp_header (res_w (Middleware MemoryStore_impl defaultConfig test_handler
       (test_clock 0) NewRecorder (test_request ''POST'' ''/api/payment'' amount_100)
       NewMemoryStore 0))) ''X-Idempotency-Cached'' = []
   \<and> header_Values (resp_header (res_w (Middleware MemoryStore_impl defaultConfig test_handler
       (test_clock 10) NewRecorder (test_request ''POST'' ''/api/payment'' amount_100)
       (res_store (Middleware MemoryStore_impl defaultConfig test_handler (test_clock 0)
          NewRecorder (test_request ''POST'' ''/api/payment'' amount_100) NewMemoryStore 0))
       (res_handler (Middleware MemoryStore_impl defaultConfig test_handler (test_clock 0)
          NewRecorder (test_request ''POST'' ''/api/payment'' amount_100) NewMemoryStore 0)))))
       ''X-Idempotency-Cached'' = [''true'']"
proof -
  let ?r = "test_request ''POST'' ''/api/payment'' amount_100"
  let ?fk = "test_fullKey amount_100"
  have m: "isIdempotentMethod (Method ?r)"
    by (simp add: isIdempotentMethod_def test_request_def)
  have k': "header_Get (ReqHeader ?r) (HeaderName defaultConfig) = ''test-123''"
    by (simp add: test_request_def defaultConfig_def DefaultHeaderName_def header_Get_def
        header_Values_def)
  have k: "header_Get (ReqHeader ?r) (HeaderName defaultConfig) \<noteq> []"
    by (simp add: k')
  have kf: "KeyFunc defaultConfig ?r (header_Get (ReqHeader ?r) (HeaderName defaultConfig)) = (Inr ?fk, ?r)"
    by (simp add: k') (simp add: test_request_def defaultConfig_def defaultKeyFunc_def
        io_ReadAll_def test_fullKey_def)
  have free: "\<not> locked (mutex_of NewMemoryStore ?fk)"
    by (simp add: mutex_of_def NewMemoryStore_def)
  have miss: "\<forall>c. MemoryStore_Get NewMemoryStore (tGet (test_clock 0)) ?fk \<noteq> Inr (Some c)"
    by (simp add: MemoryStore_Get_def NewMemoryStore_def)
  have live: "tGet (test_clock 10) \<le> tSet (test_clock 0) + TTL defaultConfig"
    by (simp add: test_clock_def defaultConfig_def DefaultTTL_def)
  note two = MemoryStore_two_requests [OF m k kf m k kf free miss live]
  have first: "header_Values (resp_header (fst (ServeHTTP test_handler NewRecorder ?r 0)))
                 ''X-Idempotency-Cached'' = []"
    by (simp add: ServeHTTP_def test_handler_def NewRecorder_def rw_WriteHeader_def rw_Write_def
        resp_header_def header_Values_def)
  have nw: "\<not> wroteHeader NewRecorder" by (simp add: NewRecorder_def)
  show ?thesis
    by (simp add: two(1) two(4) first writeCachedResponse_received(3) [OF nw])
qed

section \<open>Fingerprints\<close>

text \<open>
  The full keys of the two requests of \<^verbatim>\<open>TestMiddleware_DifferentBodyGivesDifferentKey\<close>, as
  \<^verbatim>\<open>defaultKeyFunc\<close> computes them.
\<close>

lemma fullKey_amount_100:
  "test_fullKey amount_100
     = ''test-123:2082ebfb66cac6b7117dd48a981e67ab57692675d12337690538d71801e113b3''"
  by code_simp

lemma fullKey_amount_200:
  "test_fullKey amount_200
     = ''test-123:293963078aac6b083ba8882f8b96811565ff2bc266576b8df13287e7f8ea48a0''"
  by code_simp

lemma fullKeys_differ:
  "test_fullKey amount_100 \<noteq> test_fullKey amount_200"
  unfolding fullKey_amount_100 fullKey_amount_200 by simp

lemma rebuffered_request:
  "snd (ReqBody r) = None \<Longrightarrow> r\<lparr>ReqBody := (fst (ReqBody r), None)\<rparr> = r"
  by (cases r) auto

lemma defaultKeyFunc_readable:
  "snd (ReqBody r) = None \<Longrightarrow>
   defaultKeyFunc r key = (Inr (key @ '':'' @ sha256_hex (Method r @ Path r @ fst (ReqBody r))), r)"
  by (simp add: defaultKeyFunc_def io_ReadAll_def rebuffered_request)

text \<open>
  What \<^verbatim>\<open>defaultKeyFunc\<close> returns for a readable body, and requests with different full
  keys: when two requests, both POST, PATCH or PUT with the same idempotency key, hash to
  different digests and go one after the other through the middleware with the in-process
  store, which holds no lock and has no live response for either full key, the wrapped handler
  is called once for each of them, as \<^verbatim>\<open>TestMiddleware_DifferentBodyGivesDifferentKey\<close>
  expects of its two bodies.
\<close>

lemma defaultKeyFunc_digest_decides:
  fixes nxt :: "'h Handler" and config clk1 clk2 r1 r2 s hs w1 w2
  defines "key \<equiv> header_Get (ReqHeader r1) (HeaderName config)"
  defines "d1 \<equiv> sha256_hex (Method r1 @ Path r1 @ fst (ReqBody r1))"
  defines "d2 \<equiv> sha256_hex (Method r2 @ Path r2 @ fst (ReqBody r2))"
  defines "R1 \<equiv> Middleware MemoryStore_impl config nxt clk1 w1 r1 s hs"
  defines "R2 \<equiv> Middleware MemoryStore_impl config nxt clk2 w2 r2 (res_store R1) (res_handler R1)"
  assumes d: "KeyFunc config = defaultKeyFunc"
    and samekey: "header_Get (ReqHeader r2) (HeaderName config) = key" "key \<noteq> []"
    and readable: "snd (ReqBody r1) = None" "snd (ReqBody r2) = None"
    and m: "isIdempotentMethod (Method r1)" "isIdempotentMethod (Method r2)"
    and free: "\<not> locked (mutex_of s (key @ '':'' @ d1))" "\<not> locked (mutex_of s (key @ '':'' @ d2))"
    and miss: "\<forall>c. MemoryStore_Get s (tGet clk1) (key @ '':'' @ d1) \<noteq> Inr (Some c)"
              "\<forall>c. MemoryStore_Get s (tGet clk2) (key @ '':'' @ d2) \<noteq> Inr (Some c)"
  shows "fst (defaultKeyFunc r1 key) = Inr (key @ '':'' @ d1)
       \<and> fst (defaultKeyFunc r2 key) = Inr (key @ '':'' @ d2)
       \<and> ((fst (defaultKeyFunc r1 key) = fst (defaultKeyFunc r2 key)) = (d1 = d2))
       \<and> (d1 \<noteq> d2 \<longrightarrow>
             count_list (res_calls R1) CallNext = 1
           \<and> count_list (res_calls R2) CallNext = 1
           \<and> (res_w R1, res_handler R1) = ServeHTTP nxt w1 r1 hs
           \<and> (res_w R2, res_handler R2) = ServeHTTP nxt w2 r2 (res_handler R1))"
proof -
  let ?fk1 = "key @ '':'' @ d1"
  let ?fk2 = "key @ '':'' @ d2"
  have f1: "defaultKeyFunc r1 key = (Inr ?fk1, r1)"
    unfolding d1_def by (rule defaultKeyFunc_readable [OF readable(1)])
  have f2: "defaultKeyFunc r2 key = (Inr ?fk2, r2)"
    unfolding d2_def by (rule defaultKeyFunc_readable [OF readable(2)])
  have indep: "count_list (res_calls R1) CallNext = 1
           \<and> count_list (res_calls R2) CallNext = 1
           \<and> (res_w R1, res_handler R1) = ServeHTTP nxt w1 r1 hs
           \<and> (res_w R2, res_handler R2) = ServeHTTP nxt w2 r2 (res_handler R1)" if ne: "d1 \<noteq> d2"
  proof -
    have k1: "header_Get (ReqHeader r1) (HeaderName config) \<noteq> []"
      using samekey(2) by (simp add: key_def)
    have k2: "header_Get (ReqHeader r2) (HeaderName config) \<noteq> []"
      using samekey by simp
    have kf1: "KeyFunc config r1 (header_Get (ReqHeader r1) (HeaderName config)) = (Inr ?fk1, r1)"
      using d f1 by (simp add: key_def)
    have kf2: "KeyFunc config r2 (header_Get (ReqHeader r2) (HeaderName config)) = (Inr ?fk2, r2)"
      using d f2 samekey(1) by simp
    have miss1: "\<And>c. MemoryStore_Get s (tGet clk1) ?fk1 \<noteq> Inr (Some c)"
      using miss(1) by blast
    have other: "?fk2 \<noteq> ?fk1" using ne by simp
    have e1: "R1 = \<lparr>res_w = fst (ServeHTTP nxt w1 r1 hs),
            res_store = s\<lparr>data := (data s)(?fk1 \<mapsto> \<lparr>response = Some (captured nxt w1 r1 hs (tNow clk1)),
                                                   expiresAt = tSet clk1 + TTL config\<rparr>),
                           locks := (locks s)(?fk1 \<mapsto> (mutex_of s ?fk1)\<lparr>locked := False\<rparr>)\<rparr>,
            res_handler = snd (ServeHTTP nxt w1 r1 hs),
            res_calls = [CallKeyFunc, CallLock ?fk1, CallGet ?fk1, CallNext,
                         CallSet ?fk1 (captured nxt w1 r1 hs (tNow clk1)) (TTL config), CallUnlock]\<rparr>"
      unfolding R1_def by (rule MemoryStore_first_request [OF m(1) k1 kf1 free(1) miss1])
    have free2: "\<not> locked (mutex_of (res_store R1) ?fk2)"
      unfolding R1_def
      using MemoryStore_other_key(1) [where nxt = nxt and w = w1 and hs = hs,
          OF m(1) k1 kf1 free(1) miss(1) other] free(2)
      by simp
    have miss2: "\<And>c. MemoryStore_Get (res_store R1) (tGet clk2) ?fk2 \<noteq> Inr (Some c)"
      unfolding R1_def
      using MemoryStore_other_key(2) [where nxt = nxt and w = w1 and hs = hs and t = "tGet clk2",
          OF m(1) k1 kf1 free(1) miss(1) other] miss(2)
      by simp
    note e2 = MemoryStore_first_request [where nxt = nxt and w = w2 and hs = "res_handler R1",
        OF m(2) k2 kf2 free2 miss2, folded R2_def]
    show ?thesis by (simp add: e2) (simp add: e1)
  qed
  show ?thesis
    using indep by (simp add: f1 f2)
qed

lemma TestMiddleware_DifferentBodyGivesDifferentKey:
  "isIdempotentMethod (Method (test_request ''POST'' ''/api/payment'' amount_100))
   \<and> snd (ReqBody (test_request ''POST'' ''/api/payment'' amount_100)) = None
   \<and> sha256_hex (''POST'' @ ''/api/payment'' @ amount_100)
       \<noteq> sha256_hex (''POST'' @ ''/api/payment'' @ amount_200)
   \<and> fst (defaultKeyFunc (test_request ''POST'' ''/api/payment'' amount_100) ''test-123'')
       \<noteq> fst (defaultKeyFunc (test_request ''POST'' ''/api/payment'' amount_200) ''test-123'')
   \<and> res_handler (Middleware MemoryStore_impl defaultConfig test_handler (test_clock 10)
         NewRecorder (test_request ''POST'' ''/api/payment'' amount_200)
         (res_store (Middleware MemoryStore_impl defaultConfig test_handler (test_clock 0)
            NewRecorder (test_request ''POST'' ''/api/payment'' amount_100) NewMemoryStore 0))
         (res_handler (Middleware MemoryStore_impl defaultConfig test_handler (test_clock 0)
            NewRecorder (test_request ''POST'' ''/api/payment'' amount_100) NewMemoryStore 0))) = 2"
proof -
  let ?r1 = "test_request ''POST'' ''/api/payment'' amount_100"
  let ?r2 = "test_request ''POST'' ''/api/payment'' amount_200"
  let ?R1 = "Middleware MemoryStore_impl defaultConfig test_handler (test_clock 0) NewRecorder ?r1
               NewMemoryStore 0"
  let ?R2 = "Middleware MemoryStore_impl defaultConfig test_handler (test_clock 10) NewRecorder ?r2
               (res_store ?R1) (res_handler ?R1)"
  have d: "KeyFunc defaultConfig = defaultKeyFunc" by (simp add: defaultConfig_def)
  have k1: "header_Get (ReqHeader ?r1) (HeaderName defaultConfig) = ''test-123''"
    by (simp add: test_request_def defaultConfig_def DefaultHeaderName_def header_Get_def
        header_Values_def)
  have k2: "header_Get (ReqHeader ?r2) (HeaderName defaultConfig)
              = header_Get (ReqHeader ?r1) (HeaderName defaultConfig)"
    by (simp add: test_request_def defaultConfig_def DefaultHeaderName_def header_Get_def
        header_Values_def)
  have k: "header_Get (ReqHeader ?r1) (HeaderName defaultConfig) \<noteq> []"
    by (simp add: k1)
  have b1: "snd (ReqBody ?r1) = None" by (simp add: test_request_def)
  have b2: "snd (ReqBody ?r2) = None" by (simp add: test_request_def)
  have m1: "isIdempotentMethod (Method ?r1)" by (simp add: isIdempotentMethod_def test_request_def)
  have m2: "isIdempotentMethod (Method ?r2)" by (simp add: isIdempotentMethod_def test_request_def)
  have free: "\<not> locked (mutex_of NewMemoryStore fk)" for fk
    by (simp add: mutex_of_def NewMemoryStore_def)
  have miss: "\<forall>c. MemoryStore_Get NewMemoryStore t fk \<noteq> Inr (Some c)" for t fk
    by (simp add: MemoryStore_Get_def NewMemoryStore_def)
  have dd: "sha256_hex (''POST'' @ ''/api/payment'' @ amount_100)
              \<noteq> sha256_hex (''POST'' @ ''/api/payment'' @ amount_200)"
    using fullKeys_differ by (simp add: test_fullKey_def)
  have dd': "sha256_hex (Method ?r1 @ Path ?r1 @ fst (ReqBody ?r1))
               \<noteq> sha256_hex (Method ?r2 @ Path ?r2 @ fst (ReqBody ?r2))"
    using dd by (simp add: test_request_def)
  note T = defaultKeyFunc_digest_decides [where config = defaultConfig and nxt = test_handler
      and ?clk1.0 = "test_clock 0" and ?clk2.0 = "test_clock 10" and ?r1.0 = ?r1 and ?r2.0 = ?r2
      and s = NewMemoryStore and hs = 0 and ?w1.0 = NewRecorder and ?w2.0 = NewRecorder,
      OF d k2 k b1 b2 m1 m2 free free miss miss]
  from T dd' have
    c: "(res_w ?R1, res_handler ?R1) = ServeHTTP test_handler NewRecorder ?r1 0"
       "(res_w ?R2, res_handler ?R2) = ServeHTTP test_handler NewRecorder ?r2 (res_handler ?R1)"
       "(fst (defaultKeyFunc ?r1 (header_Get (ReqHeader ?r1) (HeaderName defaultConfig)))
          = fst (defaultKeyFunc ?r2 (header_Get (ReqHeader ?r1) (HeaderName defaultConfig))))
        = (sha256_hex (Method ?r1 @ Path ?r1 @ fst (ReqBody ?r1))
          = sha256_hex (Method ?r2 @ Path ?r2 @ fst (ReqBody ?r2)))"
    by blast+
  have h1: "res_handler ?R1 = 1"
    using c(1) by (simp add: ServeHTTP_def test_handler_def)
  have h2: "res_handler ?R2 = 2"
    using c(2) by (simp add: h1 ServeHTTP_def test_handler_def)
  have ne: "fst (defaultKeyFunc ?r1 ''test-123'') \<noteq> fst (defaultKeyFunc ?r2 ''test-123'')"
    using c(3) dd' by (simp only: k1) simp
  show ?thesis
    using m1 b1 dd ne h2 by blast
qed

text \<open>
  C2. Two requests with the same idempotency key that differ in method, path or body are to
  get different fingerprints and to be handled independently. \<^verbatim>\<open>defaultKeyFunc\<close> writes
  method, path and body into the hash one after the other, with nothing between them, so the
  digest does not tell where the path ends and the body begins: a POST to \<^verbatim>\<open>/api/payment\<close>
  with the body \<^verbatim>\<open>/refund\<close> and a POST to \<^verbatim>\<open>/api/payment/refund\<close> with an empty body, under
  the same key, differ in path and body and get the same full key. Issued one after the other
  on a new in-process store, the second is answered from the cache of the first, with the
  marker header, and the handler runs once.
\<close>

theorem defaultKeyFunc_collision:
  "Path (test_request ''POST'' ''/api/payment'' ''/refund'')
     \<noteq> Path (test_request ''POST'' ''/api/payment/refund'' [])
   \<and> ReqBody (test_request ''POST'' ''/api/payment'' ''/refund'')
     \<noteq> ReqBody (test_request ''POST'' ''/api/payment/refund'' [])
   \<and> fst (defaultKeyFunc (test_request ''POST'' ''/api/payment'' ''/refund'') ''test-123'')
     = fst (defaultKeyFunc (test_request ''POST'' ''/api/payment/refund'' []) ''test-123'')
   \<and> res_handler (Middleware MemoryStore_impl defaultConfig test_handler (test_clock 10)
         NewRecorder (test_request ''POST'' ''/api/payment/refund'' [])
         (res_store (Middleware MemoryStore_impl defaultConfig test_handler (test_clock 0)
            NewRecorder (test_request ''POST'' ''/api/payment'' ''/refund'') NewMemoryStore 0))
         (res_handler (Middleware MemoryStore_impl defaultConfig test_handler (test_clock 0)
            NewRecorder (test_request ''POST'' ''/api/payment'' ''/refund'') NewMemoryStore 0))) = 1
   \<and> header_Values (resp_header (res_w (Middleware MemoryStore_impl defaultConfig test_handler
         (test_clock 10) NewRecorder (test_request ''POST'' ''/api/payment/refund'' [])
         (res_store (Middleware MemoryStore_impl defaultConfig test_handler (test_clock 0)
            NewRecorder (test_request ''POST'' ''/api/payment'' ''/refund'') NewMemoryStore 0))
         (res_handler (Middleware MemoryStore_impl defaultConfig test_handler (test_clock 0)
            NewRecorder (test_request ''POST'' ''/api/payment'' ''/refund'') NewMemoryStore 0)))))
         ''X-Idempotency-Cached'' = [''true'']"
proof -
  let ?ra = "test_request ''POST'' ''/api/payment'' ''/refund''"
  let ?rb = "test_request ''POST'' ''/api/payment/refund'' []"
  let ?fk = "''test-123:'' @ sha256_hex ''POST/api/payment/refund''"
  have p: "Path ?ra \<noteq> Path ?rb" by (simp add: test_request_def)
  have b: "ReqBody ?ra \<noteq> ReqBody ?rb" by (simp add: test_request_def)
  have fa: "defaultKeyFunc ?ra ''test-123'' = (Inr ?fk, ?ra)"
    by (simp add: test_request_def defaultKeyFunc_def io_ReadAll_def)
  have fb: "defaultKeyFunc ?rb ''test-123'' = (Inr ?fk, ?rb)"
    by (simp add: test_request_def defaultKeyFunc_def io_ReadAll_def)
  have ma: "isIdempotentMethod (Method ?ra)" by (simp add: isIdempotentMethod_def test_request_def)
  have mb: "isIdempotentMethod (Method ?rb)" by (simp add: isIdempotentMethod_def test_request_def)
  have ka': "header_Get (ReqHeader ?ra) (HeaderName defaultConfig) = ''test-123''"
    by (simp add: test_request_def defaultConfig_def DefaultHeaderName_def header_Get_def
        header_Values_def)
  have kb': "header_Get (ReqHeader ?rb) (HeaderName defaultConfig) = ''test-123''"
    by (simp add: test_request_def defaultConfig_def DefaultHeaderName_def header_Get_def
        header_Values_def)
  have ka: "header_Get (ReqHeader ?ra) (HeaderName defaultConfig) \<noteq> []" by (simp add: ka')
  have kb: "header_Get (ReqHeader ?rb) (HeaderName defaultConfig) \<noteq> []" by (simp add: kb')
  have kfa: "KeyFunc defaultConfig ?ra (header_Get (ReqHeader ?ra) (HeaderName defaultConfig))
               = (Inr ?fk, ?ra)"
    using fa by (simp only: ka') (simp add: defaultConfig_def)
  have kfb: "KeyFunc defaultConfig ?rb (header_Get (ReqHeader ?rb) (HeaderName defaultConfig))
               = (Inr ?fk, ?rb)"
    using fb by (simp only: kb') (simp add: defaultConfig_def)
  have free: "\<not> locked (mutex_of NewMemoryStore ?fk)"
    by (simp add: mutex_of_def NewMemoryStore_def)
  have miss: "\<forall>c. MemoryStore_Get NewMemoryStore (tGet (test_clock 0)) ?fk \<noteq> Inr (Some c)"
    by (simp add: MemoryStore_Get_def NewMemoryStore_def)
  have live: "tGet (test_clock 10) \<le> tSet (test_clock 0) + TTL defaultConfig"
    by (simp add: test_clock_def defaultConfig_def DefaultTTL_def)
  note two = MemoryStore_two_requests [where nxt = test_handler and hs = 0 and ?w1.0 = NewRecorder,
      OF ma ka kfa mb kb kfb free miss live]
  have nw: "\<not> wroteHeader NewRecorder" by (simp add: NewRecorder_def)
  have one: "snd (ServeHTTP test_handler NewRecorder ?ra 0) = 1"
    by (simp add: ServeHTTP_def test_handler_def)
  have h: "res_handler (Middleware MemoryStore_impl defaultConfig test_handler (test_clock 10)
         NewRecorder ?rb
         (res_store (Middleware MemoryStore_impl defaultConfig test_handler (test_clock 0)
            NewRecorder ?ra NewMemoryStore 0))
         (res_handler (Middleware MemoryStore_impl defaultConfig test_handler (test_clock 0)
            NewRecorder ?ra NewMemoryStore 0))) = 1"
    by (simp add: two(5) one)
  have c: "header_Values (resp_header (res_w (Middleware MemoryStore_impl defaultConfig test_handler
         (test_clock 10) NewRecorder ?rb
         (res_store (Middleware MemoryStore_impl defaultConfig test_handler (test_clock 0)
            NewRecorder ?ra NewMemoryStore 0))
         (res_handler (Middleware MemoryStore_impl defaultConfig test_handler (test_clock 0)
            NewRecorder ?ra NewMemoryStore 0))))) ''X-Idempotency-Cached'' = [''true'']"
    by (simp add: two(4) writeCachedResponse_received(3) [OF nw])
  show ?thesis
    using p b fa fb h c by simp
qed

section \<open>The orphaned goroutine of a timed-out Lock\<close>

lemma wedged_step:
  assumes "wedged c key" "step c x = Some (out, c')"
  shows "wedged c' key \<and> (x = OpLock key \<longrightarrow> out = Refused ErrRequestInProgress)"
proof (cases c)
  case (Pair s caps)
  show ?thesis
  proof (cases x)
    case (OpLock k)
    then show ?thesis using assms Pair
      by (auto simp: wedged_def MemoryStore_Lock_def mutex_of_def Let_def split: if_splits option.splits)
  next
    case (OpUnlock k)
    then show ?thesis using assms Pair
      by (auto simp: wedged_def MemoryStore_unlock_def mutex_of_def Let_def split: if_splits option.splits)
  next
    case (OpWake k)
    then show ?thesis using assms Pair
      by (auto simp: wedged_def parked_acquires_def mutex_of_def Let_def split: if_splits option.splits)
  next
    case (OpGet t k)
    then show ?thesis using assms Pair by (auto simp: wedged_def)
  next
    case (OpSet t k r d)
    then show ?thesis using assms Pair by (auto simp: wedged_def MemoryStore_Set_def mutex_of_def)
  next
    case (OpCleanup t)
    then show ?thesis using assms Pair by (auto simp: wedged_def cleanup_def mutex_of_def)
  qed
qed

lemma wedged_run:
  "wedged c key \<Longrightarrow> run c xs = Some (outs, c') \<Longrightarrow>
   wedged c' key \<and> length outs = length xs
   \<and> (\<forall>i < length xs. xs ! i = OpLock key \<longrightarrow> outs ! i = Refused ErrRequestInProgress)"
proof (induction xs arbitrary: c outs)
  case Nil
  then show ?case by simp
next
  case (Cons x xs)
  from Cons.prems(2) obtain out c1 outs1 where
    st: "step c x = Some (out, c1)" and rn: "run c1 xs = Some (outs1, c')" and o: "outs = out # outs1"
    by (auto split: option.splits prod.splits)
  from wedged_step [OF Cons.prems(1) st] have w1: "wedged c1 key"
    and r: "x = OpLock key \<longrightarrow> out = Refused ErrRequestInProgress" by auto
  from Cons.IH [OF w1 rn] have ih: "wedged c' key" "length outs1 = length xs"
    "\<forall>i < length xs. xs ! i = OpLock key \<longrightarrow> outs1 ! i = Refused ErrRequestInProgress" by auto
  show ?case
  proof (intro conjI allI impI)
    show "wedged c' key" by (rule ih(1))
    show "length outs = length (x # xs)" using o ih(2) by simp
  next
    fix i assume "i < length (x # xs)" "(x # xs) ! i = OpLock key"
    then show "outs ! i = Refused ErrRequestInProgress"
      using o r ih(3) by (cases i) auto
  qed
qed

lemma stranded_step:
  assumes "stranded c key" "step c x = Some (out, c')"
  shows "stranded c' key"
proof (cases c)
  case (Pair s caps)
  show ?thesis
  proof (cases x)
    case (OpLock k)
    then show ?thesis using assms Pair
      by (auto simp: stranded_def wedged_def MemoryStore_Lock_def mutex_of_def Let_def
          split: if_splits option.splits)
  next
    case (OpUnlock k)
    then show ?thesis using assms Pair
      by (auto simp: stranded_def wedged_def MemoryStore_unlock_def mutex_of_def Let_def
          split: if_splits option.splits)
  next
    case (OpWake k)
    then show ?thesis using assms Pair
      by (auto simp: stranded_def wedged_def parked_acquires_def mutex_of_def Let_def
          split: if_splits option.splits)
  next
    case (OpGet t k)
    then show ?thesis using assms Pair by (auto simp: stranded_def wedged_def)
  next
    case (OpSet t k r d)
    then show ?thesis using assms Pair
      by (auto simp: stranded_def wedged_def MemoryStore_Set_def mutex_of_def)
  next
    case (OpCleanup t)
    then show ?thesis using assms Pair
      by (auto simp: stranded_def wedged_def cleanup_def mutex_of_def)
  qed
qed

lemma stranded_run:
  "stranded c key \<Longrightarrow> run c xs = Some (outs, c') \<Longrightarrow> stranded c' key"
proof (induction xs arbitrary: c outs)
  case Nil
  then show ?case by simp
next
  case (Cons x xs)
  from Cons.prems(2) obtain out c1 outs1 where
    st: "step c x = Some (out, c1)" and rn: "run c1 xs = Some (outs1, c')"
    by (auto split: option.splits prod.splits)
  from Cons.IH [OF stranded_step [OF Cons.prems(1) st] rn] show ?case .
qed

lemma stranded_free_wake:
  assumes "stranded c key" "\<not> locked (mutex_of (fst c) key)"
  shows "\<exists>c'. step c (OpWake key) = Some (Done, c') \<and> wedged c' key"
proof (cases c)
  case (Pair s caps)
  then show ?thesis using assms
    by (auto simp: stranded_def wedged_def parked_acquires_def mutex_of_def Let_def
        split: option.splits)
qed

text \<open>
  C10. Let the mutex of \<open>key\<close> be held by a caller (who holds the closure). A \<^verbatim>\<open>Lock(key)\<close>
  call then times out with \<open>ErrRequestInProgress\<close> and leaves one more goroutine parked on
  the mutex. Through every history from there, a goroutine stays parked on the mutex until
  one has acquired it, and whenever the mutex is free a parked goroutine can acquire it. In
  particular, when the holder calls its closure the mutex is free with a goroutine parked on
  it, without a fatal error, and the parked goroutine can acquire it. Once a parked goroutine
  has acquired the mutex, no closure for the key is outstanding, the mutex stays held through
  every further history, and every \<^verbatim>\<open>Lock(key)\<close> in such a history returns
  \<open>ErrRequestInProgress\<close>.
\<close>

theorem MemoryStore_Lock_timeout_wedges_key:
  assumes "locked (mutex_of s key)" and "key \<in> caps"
  shows "\<exists>c1 c2 c3.
           step (s, caps) (OpLock key) = Some (Refused ErrRequestInProgress, c1)
         \<and> parked (mutex_of (fst c1) key) = parked (mutex_of s key) + 1
         \<and> (\<forall>xs outs c. run c1 xs = Some (outs, c) \<longrightarrow>
               (0 < parked (mutex_of (fst c) key)
                \<or> locked (mutex_of (fst c) key) \<and> key \<notin> snd c)
             \<and> (\<not> locked (mutex_of (fst c) key) \<longrightarrow>
                  (\<exists>c'. step c (OpWake key) = Some (Done, c')
                        \<and> locked (mutex_of (fst c') key) \<and> key \<notin> snd c')))
         \<and> step c1 (OpUnlock key) = Some (Done, c2)
         \<and> \<not> locked (mutex_of (fst c2) key) \<and> fatal (fst c2) = fatal s
         \<and> step c2 (OpWake key) = Some (Done, c3)
         \<and> locked (mutex_of (fst c3) key) \<and> key \<notin> snd c3
         \<and> (\<forall>xs outs c4. run c3 xs = Some (outs, c4) \<longrightarrow>
               locked (mutex_of (fst c4) key) \<and> key \<notin> snd c4
             \<and> (\<forall>i < length xs. xs ! i = OpLock key \<longrightarrow> outs ! i = Refused ErrRequestInProgress))"
proof -
  define s1 where "s1 = snd (MemoryStore_Lock s key)"
  define s2 where "s2 = MemoryStore_unlock key s1"
  define s3 where "s3 = s2\<lparr>locks := (locks s2)(key \<mapsto> (mutex_of s2 key)\<lparr>locked := True, parked := parked (mutex_of s2 key) - 1\<rparr>)\<rparr>"
  have l1: "MemoryStore_Lock s key = (Inl ErrRequestInProgress, s1)"
    using assms(1) by (simp add: s1_def MemoryStore_Lock_def Let_def)
  have m1: "mutex_of s1 key = (mutex_of s key)\<lparr>parked := parked (mutex_of s key) + 1\<rparr>"
    using assms(1) by (simp add: s1_def MemoryStore_Lock_def Let_def mutex_of_def)
  have f1: "fatal s1 = fatal s"
    using assms(1) by (simp add: s1_def MemoryStore_Lock_def Let_def)
  have m2: "mutex_of s2 key = (mutex_of s1 key)\<lparr>locked := False\<rparr>"
    using assms(1) m1 by (simp add: s2_def MemoryStore_unlock_def Let_def) (simp add: mutex_of_def)
  have f2: "fatal s2 = fatal s"
    using assms(1) m1 f1 by (simp add: s2_def MemoryStore_unlock_def Let_def)
  have p3: "parked_acquires s2 key = Some s3"
    using m1 m2 by (simp add: parked_acquires_def Let_def s3_def)
  have m3: "locked (mutex_of s3 key)"
    by (simp add: s3_def mutex_of_def)
  have w: "wedged (s3, caps - {key}) key"
    using m3 by (simp add: wedged_def)
  have st1: "step (s, caps) (OpLock key) = Some (Refused ErrRequestInProgress, (s1, caps))"
    using l1 by simp
  have st2: "step (s1, caps) (OpUnlock key) = Some (Done, (s2, caps - {key}))"
    using assms(2) by (simp add: s2_def)
  have st3: "step (s2, caps - {key}) (OpWake key) = Some (Done, (s3, caps - {key}))"
    using p3 by simp
  have sd: "stranded (s1, caps) key"
    using assms(1) m1 by (simp add: stranded_def)
  have always: "\<forall>xs outs c. run (s1, caps) xs = Some (outs, c) \<longrightarrow>
               (0 < parked (mutex_of (fst c) key)
                \<or> locked (mutex_of (fst c) key) \<and> key \<notin> snd c)
             \<and> (\<not> locked (mutex_of (fst c) key) \<longrightarrow>
                  (\<exists>c'. step c (OpWake key) = Some (Done, c')
                        \<and> locked (mutex_of (fst c') key) \<and> key \<notin> snd c'))"
  proof (intro allI impI)
    fix xs outs c
    assume r: "run (s1, caps) xs = Some (outs, c)"
    from stranded_run [OF sd r] have sc: "stranded c key" .
    then have a: "0 < parked (mutex_of (fst c) key)
                \<or> locked (mutex_of (fst c) key) \<and> key \<notin> snd c"
      by (auto simp: stranded_def wedged_def)
    have b: "\<not> locked (mutex_of (fst c) key) \<longrightarrow>
                  (\<exists>c'. step c (OpWake key) = Some (Done, c')
                        \<and> locked (mutex_of (fst c') key) \<and> key \<notin> snd c')"
      using stranded_free_wake [OF sc] by (auto simp: wedged_def)
    from a b show "(0 < parked (mutex_of (fst c) key)
                \<or> locked (mutex_of (fst c) key) \<and> key \<notin> snd c)
             \<and> (\<not> locked (mutex_of (fst c) key) \<longrightarrow>
                  (\<exists>c'. step c (OpWake key) = Some (Done, c')
                        \<and> locked (mutex_of (fst c') key) \<and> key \<notin> snd c'))" by blast
  qed
  have forever: "\<forall>xs outs c4. run (s3, caps - {key}) xs = Some (outs, c4) \<longrightarrow>
               locked (mutex_of (fst c4) key) \<and> key \<notin> snd c4
             \<and> (\<forall>i < length xs. xs ! i = OpLock key \<longrightarrow> outs ! i = Refused ErrRequestInProgress)"
    using wedged_run [OF w] by (simp add: wedged_def)
  have rest: "parked (mutex_of s1 key) = parked (mutex_of s key) + 1"
    "\<not> locked (mutex_of s2 key)" "key \<notin> caps - {key}"
    using m1 m2 by simp_all
  show ?thesis
    apply (rule exI [of _ "(s1, caps)"])
    apply (rule exI [of _ "(s2, caps - {key})"])
    apply (rule exI [of _ "(s3, caps - {key})"])
    using st1 st2 st3 rest m3 f2 always forever
    apply (simp only: fst_conv snd_conv)
    apply blast
    done
qed

theorem MemoryStore_Lock_timeout_wedges_key_witness:
  "locked (mutex_of (snd (MemoryStore_Lock NewMemoryStore ''pay-1'')) ''pay-1'')
   \<and> ''pay-1'' \<in> {''pay-1''}
   \<and> (\<exists>c3. run (snd (MemoryStore_Lock NewMemoryStore ''pay-1''), {''pay-1''})
               [OpLock ''pay-1'', OpUnlock ''pay-1'', OpWake ''pay-1'']
             = Some ([Refused ErrRequestInProgress, Done, Done], c3)
           \<and> (\<forall>outs c4. run c3 [OpGet 5 ''pay-1'', OpLock ''pay-1'', OpLock ''pay-1''] = Some (outs, c4)
                 \<longrightarrow> outs ! 1 = Refused ErrRequestInProgress \<and> outs ! 2 = Refused ErrRequestInProgress))"
proof -
  let ?s = "snd (MemoryStore_Lock NewMemoryStore ''pay-1'')"
  have h1: "locked (mutex_of ?s ''pay-1'')"
    by (simp add: MemoryStore_Lock_def NewMemoryStore_def mutex_of_def Let_def)
  have h2: "''pay-1'' \<in> {''pay-1''}" by simp
  from MemoryStore_Lock_timeout_wedges_key [OF h1 h2]
  obtain c1 c2 c3 where
    s1: "step (?s, {''pay-1''}) (OpLock ''pay-1'') = Some (Refused ErrRequestInProgress, c1)" and
    s2: "step c1 (OpUnlock ''pay-1'') = Some (Done, c2)" and
    s3: "step c2 (OpWake ''pay-1'') = Some (Done, c3)" and
    fo: "\<forall>xs outs c4. run c3 xs = Some (outs, c4) \<longrightarrow>
           locked (mutex_of (fst c4) ''pay-1'') \<and> ''pay-1'' \<notin> snd c4
         \<and> (\<forall>i < length xs. xs ! i = OpLock ''pay-1'' \<longrightarrow> outs ! i = Refused ErrRequestInProgress)"
    by blast
  have r: "run (?s, {''pay-1''}) [OpLock ''pay-1'', OpUnlock ''pay-1'', OpWake ''pay-1'']
             = Some ([Refused ErrRequestInProgress, Done, Done], c3)"
    using s1 s2 s3 by simp
  have "\<forall>outs c4. run c3 [OpGet 5 ''pay-1'', OpLock ''pay-1'', OpLock ''pay-1''] = Some (outs, c4)
                 \<longrightarrow> outs ! 1 = Refused ErrRequestInProgress \<and> outs ! 2 = Refused ErrRequestInProgress"
  proof (intro allI impI)
    fix outs c4
    assume a: "run c3 [OpGet 5 ''pay-1'', OpLock ''pay-1'', OpLock ''pay-1''] = Some (outs, c4)"
    from fo a have b: "\<forall>i < length [OpGet 5 ''pay-1'', OpLock ''pay-1'', OpLock ''pay-1''].
        [OpGet 5 ''pay-1'', OpLock ''pay-1'', OpLock ''pay-1''] ! i = OpLock ''pay-1''
        \<longrightarrow> outs ! i = Refused ErrRequestInProgress" by blast
    from b [rule_format, of 1] b [rule_format, of 2]
    show "outs ! 1 = Refused ErrRequestInProgress \<and> outs ! 2 = Refused ErrRequestInProgress"
      by simp
  qed
  with r h1 h2 show ?thesis by blast
qed

section \<open>The repository's tests on the model\<close>

text \<open>
  \<^verbatim>\<open>TestMemoryStore_Lock\<close>: the first \<^verbatim>\<open>Lock\<close> succeeds, the second is refused, and after the
  first closure was called a third succeeds. The history leaves the goroutine of the refused
  call parked on the mutex.
\<close>

lemma TestMemoryStore_Lock_history:
  "\<exists>c. run (NewMemoryStore, {})
          [OpLock ''test-key'', OpLock ''test-key'', OpUnlock ''test-key'', OpLock ''test-key'',
           OpUnlock ''test-key'']
        = Some ([Acquired, Refused ErrRequestInProgress, Done, Acquired, Done], c)
      \<and> \<not> fatal (fst c) \<and> mutex_of (fst c) ''test-key'' = \<lparr>locked = False, parked = 1\<rparr>
      \<and> stranded c ''test-key''"
  by (simp add: NewMemoryStore_def MemoryStore_Lock_def MemoryStore_unlock_def mutex_of_def
      stranded_def wedged_def Let_def)

text \<open>
  \<^verbatim>\<open>TestMiddleware_WithCustomTTL\<close>: with a TTL of 100ms, the same request 150ms later runs
  the handler again and its response carries no \<^verbatim>\<open>X-Idempotency-Cached\<close> header.
\<close>

lemma TestMiddleware_WithCustomTTL:
  "count_list (res_calls (Middleware MemoryStore_impl (applyOptions [WithTTL 100000000])
       status_handler (test_clock 150000000) NewRecorder
       (test_request ''POST'' ''/api/payment'' amount_100)
       (res_store (Middleware MemoryStore_impl (applyOptions [WithTTL 100000000]) status_handler
          (test_clock 0) NewRecorder (test_request ''POST'' ''/api/payment'' amount_100)
          NewMemoryStore ()))
       ())) CallNext = 1
   \<and> header_Values (resp_header (res_w (Middleware MemoryStore_impl
       (applyOptions [WithTTL 100000000]) status_handler (test_clock 150000000) NewRecorder
       (test_request ''POST'' ''/api/payment'' amount_100)
       (res_store (Middleware MemoryStore_impl (applyOptions [WithTTL 100000000]) status_handler
          (test_clock 0) NewRecorder (test_request ''POST'' ''/api/payment'' amount_100)
          NewMemoryStore ()))
       ()))) ''X-Idempotency-Cached'' = []"
proof -
  let ?cfg = "applyOptions [WithTTL 100000000]"
  let ?r = "test_request ''POST'' ''/api/payment'' amount_100"
  let ?fk = "test_fullKey amount_100"
  have cfg: "?cfg = \<lparr>HeaderName = DefaultHeaderName, TTL = 100000000, KeyFunc = defaultKeyFunc\<rparr>"
    by (simp add: applyOptions_def WithTTL_def defaultConfig_def)
  have m: "isIdempotentMethod (Method ?r)"
    by (simp add: isIdempotentMethod_def test_request_def)
  have k': "header_Get (ReqHeader ?r) (HeaderName ?cfg) = ''test-123''"
    by (simp add: cfg) (simp add: test_request_def DefaultHeaderName_def header_Get_def
        header_Values_def)
  have k: "header_Get (ReqHeader ?r) (HeaderName ?cfg) \<noteq> []"
    by (simp only: k') simp
  have kf: "KeyFunc ?cfg ?r (header_Get (ReqHeader ?r) (HeaderName ?cfg)) = (Inr ?fk, ?r)"
    by (simp only: k') (simp add: cfg test_request_def defaultKeyFunc_def io_ReadAll_def
        test_fullKey_def)
  have free: "\<not> locked (mutex_of NewMemoryStore ?fk)"
    by (simp add: mutex_of_def NewMemoryStore_def)
  have miss: "\<And>c. MemoryStore_Get NewMemoryStore (tGet (test_clock 0)) ?fk \<noteq> Inr (Some c)"
    by (simp add: MemoryStore_Get_def NewMemoryStore_def)
  note e1 = MemoryStore_first_request [where nxt = status_handler and w = NewRecorder and hs = "()",
      OF m k kf free miss]
  let ?s' = "res_store (Middleware MemoryStore_impl ?cfg status_handler (test_clock 0) NewRecorder ?r
               NewMemoryStore ())"
  have s': "?s' = NewMemoryStore\<lparr>data := (data NewMemoryStore)(?fk \<mapsto>
                     \<lparr>response = Some (captured status_handler NewRecorder ?r () (tNow (test_clock 0))),
                      expiresAt = tSet (test_clock 0) + TTL ?cfg\<rparr>),
                   locks := (locks NewMemoryStore)(?fk \<mapsto>
                     (mutex_of NewMemoryStore ?fk)\<lparr>locked := False\<rparr>)\<rparr>"
    by (simp only: e1 Result.simps)
  have free': "\<not> locked (mutex_of ?s' ?fk)"
    by (simp only: s') (simp add: mutex_of_def)
  have miss': "\<And>c. MemoryStore_Get ?s' (tGet (test_clock 150000000)) ?fk \<noteq> Inr (Some c)"
    by (simp only: s') (simp add: MemoryStore_Get_def cfg test_clock_def)
  note e2 = MemoryStore_first_request [where nxt = status_handler and w = NewRecorder and hs = "()",
      OF m k kf free' miss']
  have h: "header_Values (resp_header (fst (ServeHTTP status_handler NewRecorder ?r ())))
             ''X-Idempotency-Cached'' = []"
    by (simp add: ServeHTTP_def status_handler_def NewRecorder_def rw_WriteHeader_def
        resp_header_def header_Values_def)
  show ?thesis
    by (simp add: e2 h)
qed

end
